theory Spec2Isabelle
  imports Complex_Main "HOL-Library.AList" "HOL-Library.Sublist"
begin

section \<open>JavaScript values\<close>

text \<open>
  Parsed configuration data and the store's contents are JSON-like values. A JavaScript
  array is an object whose keys are the decimal indices, so arrays and plain objects share
  one constructor and differ in their kind; the properties are kept in insertion order.
  Numbers are opaque leaves (NaN is not represented); strings are ASCII.
\<close>

datatype okind = Plain | Array

datatype jsval =
    JUndefined
  | JNull
  | JBool bool
  | JNum real
  | JStr string
  | JObj okind "(string \<times> jsval) list"

datatype error =
    FsError string
  | SyntaxError string
  | ParserError string
  | TypeError string
  | CustomError string

text \<open>\<open>error.toString()\<close>: the name of the error class and its message.\<close>

fun error_toString :: "error \<Rightarrow> string" where
  "error_toString (FsError m) = ''Error: '' @ m"
| "error_toString (SyntaxError m) = ''SyntaxError: '' @ m"
| "error_toString (ParserError m) = ''Error: '' @ m"
| "error_toString (TypeError m) = ''TypeError: '' @ m"
| "error_toString (CustomError m) = ''Error: '' @ m"

text \<open>
  \<open>class ParserError extends Error\<close>, whose constructor takes the underlying error and
  the file and builds the message \<open>`${error.toString()} in "${file}"`\<close>.
\<close>

definition new_ParserError :: "error \<Rightarrow> string \<Rightarrow> error" where
  "new_ParserError err file = ParserError (error_toString err @ '' in \"'' @ file @ ''\"'')"

fun truthy :: "jsval \<Rightarrow> bool" where
  "truthy JUndefined = False"
| "truthy JNull = False"
| "truthy (JBool b) = b"
| "truthy (JNum n) = (n \<noteq> 0)"
| "truthy (JStr s) = (s \<noteq> [])"
| "truthy (JObj k ps) = True"

fun isObject :: "jsval \<Rightarrow> bool" where
  "isObject (JObj k ps) = True"
| "isObject v = False"

fun isArray :: "jsval \<Rightarrow> bool" where
  "isArray (JObj Array ps) = True"
| "isArray v = False"

definition digit_chars :: string where
  "digit_chars = ''0123456789''"

definition lower_chars :: string where
  "lower_chars = ''abcdefghijklmnopqrstuvwxyz''"

definition upper_chars :: string where
  "upper_chars = ''ABCDEFGHIJKLMNOPQRSTUVWXYZ''"

definition is_digit :: "char \<Rightarrow> bool" where
  "is_digit c = (c \<in> set digit_chars)"

definition is_lower :: "char \<Rightarrow> bool" where
  "is_lower c = (c \<in> set lower_chars)"

definition is_upper :: "char \<Rightarrow> bool" where
  "is_upper c = (c \<in> set upper_chars)"

definition toLowerChar :: "char \<Rightarrow> char" where
  "toLowerChar c = (case map_of (zip upper_chars lower_chars) c of Some d \<Rightarrow> d | None \<Rightarrow> c)"

definition toUpperChar :: "char \<Rightarrow> char" where
  "toUpperChar c = (case map_of (zip lower_chars upper_chars) c of Some d \<Rightarrow> d | None \<Rightarrow> c)"

text \<open>Decimal rendering of an array index, as in the keys of an array or a string.\<close>

fun show_nat :: "nat \<Rightarrow> string" where
  "show_nat n =
     (if n < 10 then [digit_chars ! n] else show_nat (n div 10) @ [digit_chars ! (n mod 10)])"

declare show_nat.simps [simp del]

definition digit_value :: "char \<Rightarrow> nat" where
  "digit_value c = (case map_of (zip digit_chars [0 ..< 10]) c of Some d \<Rightarrow> d | None \<Rightarrow> 0)"

definition number_of_digits :: "string \<Rightarrow> nat" where
  "number_of_digits s = foldl (\<lambda>n c. 10 * n + digit_value c) 0 s"

text \<open>
  \<open>value[key]\<close> on a value that is neither \<open>undefined\<close> nor \<open>null\<close>: an own property
  of an object, an index or the length of a string, \<open>undefined\<close> otherwise. Properties
  inherited from \<open>Object.prototype\<close> (\<open>constructor\<close>, \<open>toString\<close>, ...) and the
  \<open>length\<close> of an array are outside the model.
\<close>

fun get_prop :: "jsval \<Rightarrow> string \<Rightarrow> jsval" where
  "get_prop (JObj k ps) key = (case map_of ps key of Some v \<Rightarrow> v | None \<Rightarrow> JUndefined)"
| "get_prop (JStr s) key =
     (if key = ''length'' then JNum (real (length s))
      else case filter (\<lambda>i. show_nat i = key) [0 ..< length s] of
             i # _ \<Rightarrow> JStr [s ! i]
           | [] \<Rightarrow> JUndefined)"
| "get_prop v key = JUndefined"

fun has_own :: "jsval \<Rightarrow> string \<Rightarrow> bool" where
  "has_own (JObj k ps) key = (key \<in> set (map fst ps))"
| "has_own v key = False"

text \<open>\<open>object[key] = value\<close> on an object: an existing key keeps its place.\<close>

fun put_prop :: "jsval \<Rightarrow> string \<Rightarrow> jsval \<Rightarrow> jsval" where
  "put_prop (JObj k ps) key v = JObj k (AList.update key v ps)"
| "put_prop t key v = t"

text \<open>\<open>delete object[key]\<close>.\<close>

fun delete_prop :: "jsval \<Rightarrow> string \<Rightarrow> jsval" where
  "delete_prop (JObj k ps) key = JObj k (filter (\<lambda>p. fst p \<noteq> key) ps)"
| "delete_prop t key = t"

text \<open>\<open>_.keys(object)\<close>: the own enumerable keys.\<close>

fun keys :: "jsval \<Rightarrow> string list" where
  "keys (JObj k ps) = map fst ps"
| "keys v = []"

section \<open>Strings and paths\<close>

text \<open>\<open>String.prototype.split\<close> with a one-character separator.\<close>

fun js_split :: "char \<Rightarrow> string \<Rightarrow> string list" where
  "js_split c [] = [[]]"
| "js_split c (x # xs) =
     (if x = c then [] # js_split c xs
      else case js_split c xs of
             w # ws \<Rightarrow> (x # w) # ws
           | [] \<Rightarrow> [[x]])"

text \<open>\<open>Array.prototype.join\<close>.\<close>

fun js_join :: "string \<Rightarrow> string list \<Rightarrow> string" where
  "js_join sep [] = []"
| "js_join sep [w] = w"
| "js_join sep (w # ws) = w @ sep @ js_join sep ws"

text \<open>
  \<open>String.prototype.replace\<close> with a string pattern and the empty replacement: only the
  first occurrence of the pattern is deleted.
\<close>

fun replace_first :: "string \<Rightarrow> string \<Rightarrow> string" where
  "replace_first pat [] = []"
| "replace_first pat (x # xs) =
     (if prefix pat (x # xs) then drop (length pat) (x # xs)
      else x # replace_first pat xs)"

text \<open>Removing trailing separators, as node's path functions do before looking at a name.\<close>

definition strip_trailing_sep :: "string \<Rightarrow> string" where
  "strip_trailing_sep p = rev (dropWhile (\<lambda>c. c = CHR ''/'') (rev p))"

text \<open>
  \<open>path.extname\<close> (POSIX): from the last dot of the last path component to its end;
  empty when that component has no dot, starts with its only dot, or is \<open>..\<close>.
\<close>

definition extname :: "string \<Rightarrow> string" where
  "extname p =
     (let base = last (js_split (CHR ''/'') (strip_trailing_sep p));
          stem = rev (drop 1 (dropWhile (\<lambda>c. c \<noteq> CHR ''.'') (rev base)));
          ext = drop (length stem) base
      in if CHR ''.'' \<notin> set base \<or> stem = [] \<or> base = ''..'' then [] else ext)"

text \<open>
  Normalising the segments of an absolute path: empty segments and \<open>.\<close> vanish,
  \<open>..\<close> removes the segment before it.
\<close>

fun normalize_segments :: "string list \<Rightarrow> string list \<Rightarrow> string list" where
  "normalize_segments acc [] = rev acc"
| "normalize_segments acc (s # ss) =
     (if s = [] \<or> s = ''.'' then normalize_segments acc ss
      else if s = ''..'' then normalize_segments (drop 1 acc) ss
      else normalize_segments (s # acc) ss)"

definition path_segments :: "string \<Rightarrow> string list" where
  "path_segments p = normalize_segments [] (js_split (CHR ''/'') p)"

definition isAbsolute :: "string \<Rightarrow> bool" where
  "isAbsolute p = (case p of [] \<Rightarrow> False | c # _ \<Rightarrow> c = CHR ''/'')"

text \<open>\<open>path.resolve(from, to)\<close> for an absolute \<open>from\<close>.\<close>

definition path_resolve :: "string \<Rightarrow> string \<Rightarrow> string" where
  "path_resolve from to =
     (if isAbsolute to then ''/'' @ js_join ''/'' (path_segments to)
      else ''/'' @ js_join ''/'' (path_segments (from @ ''/'' @ to)))"

fun drop_common :: "string list \<Rightarrow> string list \<Rightarrow> string list \<times> string list" where
  "drop_common (x # xs) (y # ys) = (if x = y then drop_common xs ys else (x # xs, y # ys))"
| "drop_common xs ys = (xs, ys)"

text \<open>
  \<open>path.relative(from, to)\<close> for absolute paths: one \<open>..\<close> for each segment of
  \<open>from\<close> below the common prefix, then the rest of \<open>to\<close>.
\<close>

definition path_relative :: "string \<Rightarrow> string \<Rightarrow> string" where
  "path_relative from to =
     (case drop_common (path_segments from) (path_segments to) of
        (up, down) \<Rightarrow> js_join ''/'' (replicate (length up) ''..'' @ down))"

section \<open>The default path normaliser\<close>

text \<open>
  lodash's \<open>camelCase\<close> on ASCII strings: apostrophes are removed, the string is cut
  into words at every character that is neither a letter nor a digit, between a lower-case
  and an upper-case letter, between a letter and a digit, and before the last capital of a
  run of capitals that a lower-case letter follows; the first word is lower-cased and every
  later word is lower-cased with its first letter capitalised. lodash's treatment of
  ordinals (\<open>1st\<close>) and of letters outside ASCII is not modelled.
\<close>

definition is_alnum :: "char \<Rightarrow> bool" where
  "is_alnum c = (is_lower c \<or> is_upper c \<or> is_digit c)"

definition word_break :: "char \<Rightarrow> char \<Rightarrow> string \<Rightarrow> bool" where
  "word_break p c rest =
     ((is_lower p \<and> is_upper c) \<or> (is_digit p \<noteq> is_digit c) \<or>
      (is_upper p \<and> is_upper c \<and> (case rest of [] \<Rightarrow> False | n # _ \<Rightarrow> is_lower n)))"

definition flush :: "string \<Rightarrow> string list" where
  "flush w = (if w = [] then [] else [w])"

fun words_from :: "string \<Rightarrow> string \<Rightarrow> string list" where
  "words_from w [] = flush w"
| "words_from w (c # cs) =
     (if \<not> is_alnum c then flush w @ words_from [] cs
      else if w \<noteq> [] \<and> word_break (last w) c cs then w # words_from [c] cs
      else words_from (w @ [c]) cs)"

definition js_words :: "string \<Rightarrow> string list" where
  "js_words s = words_from [] (filter (\<lambda>c. c \<noteq> CHR 0x27) s)"

definition capitalize :: "string \<Rightarrow> string" where
  "capitalize w = (case map toLowerChar w of [] \<Rightarrow> [] | c # cs \<Rightarrow> toUpperChar c # cs)"

definition camelCase :: "string \<Rightarrow> string" where
  "camelCase s =
     (case js_words s of
        [] \<Rightarrow> []
      | w # ws \<Rightarrow> map toLowerChar w @ concat (map capitalize ws))"

section \<open>Dotted paths\<close>

text \<open>
  \<open>toDotPath(filepath, opts)\<close>: the options default to lodash's \<open>camelCase\<close> as the
  normaliser; the extension is removed with \<open>String.replace\<close>, the path is split at the
  separator, empty segments are dropped, each segment is normalised and the segments are
  joined with dots.
\<close>

record dotpath_opts =
  dp_pathNormalizer :: "(string \<Rightarrow> string) option"

text \<open>\<open>_.defaults({}, opts, {pathNormalizer: _.camelCase})\<close>, read at \<open>pathNormalizer\<close>.\<close>

definition dotpath_normalizer :: "dotpath_opts option \<Rightarrow> string \<Rightarrow> string" where
  "dotpath_normalizer opts =
     (case opts of
        None \<Rightarrow> camelCase
      | Some given \<Rightarrow> (case dp_pathNormalizer given of None \<Rightarrow> camelCase | Some f \<Rightarrow> f))"

definition toDotPath :: "string \<Rightarrow> dotpath_opts option \<Rightarrow> string" where
  "toDotPath filepath opts =
     (let ext = extname filepath
      in js_join ''.''
           (map (dotpath_normalizer opts)
              (filter (\<lambda>n. n \<noteq> [])
                 (js_split (CHR ''/'') (replace_first ext filepath)))))"

section \<open>The lodash operations on trees\<close>

text \<open>
  \<open>isIndex\<close>: a decimal numeral without a leading zero, below \<open>Number.MAX_SAFE_INTEGER\<close>.
\<close>

definition is_index :: "string \<Rightarrow> bool" where
  "is_index s =
     (case s of
        [] \<Rightarrow> False
      | c # cs \<Rightarrow> list_all is_digit s \<and> (if c = CHR ''0'' then cs = [] else True) \<and>
                 number_of_digits s < 9007199254740991)"

text \<open>
  \<open>castPath\<close> for the paths this program builds, which contain no brackets: a path
  without a dot, or one that is already a key of the object, is a single key; any other
  path is cut at its dots.
\<close>

definition isKey :: "string \<Rightarrow> jsval \<Rightarrow> bool" where
  "isKey path object = (if CHR ''.'' \<in> set path then has_own object path else True)"

definition stringToPath :: "string \<Rightarrow> string list" where
  "stringToPath path = js_split (CHR ''.'') path"

definition castPath :: "string \<Rightarrow> jsval \<Rightarrow> string list" where
  "castPath path object = (if isKey path object then [path] else stringToPath path)"

text \<open>
  \<open>baseSet\<close>: walks the keys; at every key but the last it keeps the object found there,
  or puts a fresh array (when the next key is an index) or a fresh plain object in its
  place, and at the last key it assigns the value.
\<close>

fun baseSet :: "jsval \<Rightarrow> string list \<Rightarrow> jsval \<Rightarrow> jsval" where
  "baseSet object [] v = object"
| "baseSet object [key] v = put_prop object key v"
| "baseSet object (key # nxt # rest) v =
     (let objValue = get_prop object key;
          newValue = (if isObject objValue then objValue
                      else if is_index nxt then JObj Array [] else JObj Plain [])
      in put_prop object key (baseSet newValue (nxt # rest) v))"

text \<open>\<open>_.set(object, path, value)\<close>.\<close>

definition lodash_set :: "jsval \<Rightarrow> string \<Rightarrow> jsval \<Rightarrow> jsval" where
  "lodash_set object path v =
     (if isObject object then baseSet object (castPath path object) v else object)"

text \<open>
  \<open>assignMergeValue\<close>: an \<open>undefined\<close> value is only written where the key is missing.
\<close>

definition assignMergeValue :: "jsval \<Rightarrow> string \<Rightarrow> jsval \<Rightarrow> jsval" where
  "assignMergeValue object key v =
     (case v of
        JUndefined \<Rightarrow> (if has_own object key then object else put_prop object key v)
      | _ \<Rightarrow> put_prop object key v)"

text \<open>The enumerable keys of a string source: its indices, each holding one character.\<close>

definition string_props :: "string \<Rightarrow> (string \<times> jsval) list" where
  "string_props s = map (\<lambda>i. (show_nat i, JStr [s ! i])) [0 ..< length s]"

text \<open>
  \<open>baseMerge(object, source)\<close> with \<open>baseMergeDeep\<close>: every key of the source is visited
  in order. A source value that is an array merges into the array already there, or into a
  fresh array; one that is a plain object merges into the object already there, or into a
  fresh plain object; any other value is assigned. Sources are trees: shared or cyclic
  references, which lodash follows with a stack, are not represented, and neither are
  plain objects that lodash takes for array-likes because of a numeric \<open>length\<close>.
\<close>

fun baseMerge :: "jsval \<Rightarrow> jsval \<Rightarrow> jsval"
  and merge_props :: "jsval \<Rightarrow> (string \<times> jsval) list \<Rightarrow> jsval" where
  "baseMerge object (JObj k ps) = merge_props object ps"
| "baseMerge object (JStr s) =
     foldl (\<lambda>obj p. assignMergeValue obj (fst p) (snd p)) object (string_props s)"
| "baseMerge object JUndefined = object"
| "baseMerge object JNull = object"
| "baseMerge object (JBool b) = object"
| "baseMerge object (JNum n) = object"
| "merge_props object [] = object"
| "merge_props object ((key, srcValue) # rest) =
     (case srcValue of
        JObj k ps \<Rightarrow>
          (let objValue = get_prop object key;
               newValue =
                 (case k of
                    Array \<Rightarrow> (if isArray objValue then objValue else JObj Array [])
                  | Plain \<Rightarrow> (if isObject objValue then objValue else JObj Plain []))
           in merge_props (assignMergeValue object key (merge_props newValue ps)) rest)
      | _ \<Rightarrow> merge_props (assignMergeValue object key srcValue) rest)"

text \<open>
  \<open>_.merge(object, ...sources)\<close>: the sources are merged in from left to right, and a
  falsy source is skipped.
\<close>

definition lodash_merge :: "jsval \<Rightarrow> jsval list \<Rightarrow> jsval" where
  "lodash_merge object sources =
     foldl (\<lambda>obj source. if truthy source then baseMerge obj source else obj) object sources"

text \<open>
  A tree as a decoder produces it: no object has a key twice.
\<close>

fun wf_tree :: "jsval \<Rightarrow> bool" where
  "wf_tree (JObj k ps) = (distinct (map fst ps) \<and> list_all (\<lambda>p. wf_tree (snd p)) ps)"
| "wf_tree v = True"

section \<open>The collaborators\<close>

text \<open>
  What a file parser hands to its callback: an error, or the parsed value.
\<close>

type_synonym parser = "string \<Rightarrow> string \<Rightarrow> error + jsval"

text \<open>
  The surroundings of one \<open>load\<close> call: the module's directory, \<open>process.env.NODE_ENV\<close>,
  the file finder (\<open>find.file\<close>, which hands the matching files to its callback, or reports
  a failure through a handler of its own and never runs the callback), \<open>fs.readFile\<close>,
  the decoders \<open>yaml.load\<close> and \<open>JSON.parse\<close> (which return a value or throw), and the
  time at which the parser of each file calls back.
\<close>

record env =
  dirname :: string
  NODE_ENV :: "string option"
  find_file :: "(string \<Rightarrow> bool) \<Rightarrow> string \<Rightarrow> string list option"
  readFile :: "string \<Rightarrow> string \<Rightarrow> error + string"
  yaml_load :: "string \<Rightarrow> error + jsval"
  JSON_parse :: "string \<Rightarrow> error + jsval"
  finished :: "string \<Rightarrow> nat"

text \<open>
  \<open>parseYAML(file, encoding, done)\<close>: a read error goes to \<open>done\<close> as it is; an exception
  of the decoder is caught and wrapped in a \<open>ParserError\<close> with the file.
\<close>

definition parseYAML :: "env \<Rightarrow> parser" where
  "parseYAML e file encoding =
     (case readFile e file encoding of
        Inl err \<Rightarrow> Inl err
      | Inr data \<Rightarrow>
          (case yaml_load e data of
             Inr v \<Rightarrow> Inr v
           | Inl err \<Rightarrow> Inl (new_ParserError err file)))"

definition parseJSON :: "env \<Rightarrow> parser" where
  "parseJSON e file encoding =
     (case readFile e file encoding of
        Inl err \<Rightarrow> Inl err
      | Inr data \<Rightarrow>
          (case JSON_parse e data of
             Inr v \<Rightarrow> Inr v
           | Inl err \<Rightarrow> Inl (new_ParserError err file)))"

text \<open>
  The built-in file patterns \<open>/^.*\.(yaml|yml)$/\<close> and \<open>/^.*\.(json)$/\<close>: the name ends
  with the extension, and no line terminator comes before it.
\<close>

definition ends_with_ext :: "string \<Rightarrow> string \<Rightarrow> bool" where
  "ends_with_ext ext s =
     (suffix ext s \<and>
      list_all (\<lambda>c. c \<notin> set [CHR 0x0A, CHR 0x0D]) (take (length s - length ext) s))"

definition filePatterns_yaml :: "string \<Rightarrow> bool" where
  "filePatterns_yaml s = (ends_with_ext ''.yaml'' s \<or> ends_with_ext ''.yml'' s)"

definition filePatterns_json :: "string \<Rightarrow> bool" where
  "filePatterns_json s = ends_with_ext ''.json'' s"

section \<open>The store\<close>

text \<open>
  Objects live in a heap of addresses. The module holds the constant binding \<open>store\<close>, the
  address of the object made by \<open>const store = {}\<close>; \<open>next_free\<close> is the next address an
  object literal gets.
\<close>

record state =
  store :: nat
  heap :: "nat \<Rightarrow> jsval"
  next_free :: nat

definition initial :: state where
  "initial = \<lparr>store = 0, heap = (\<lambda>a. JUndefined)(0 := JObj Plain []), next_free = 1\<rparr>"

fun is_plain :: "jsval \<Rightarrow> bool" where
  "is_plain (JObj Plain ps) = True"
| "is_plain v = False"

text \<open>
  In every state the program reaches, the store is an allocated plain object.
\<close>

definition wf_state :: "state \<Rightarrow> bool" where
  "wf_state s = (store s < next_free s \<and> is_plain (heap s (store s)))"

text \<open>\<open>clear()\<close>: deletes every key of the store object, one after the other.\<close>

definition clear :: "state \<Rightarrow> state" where
  "clear s =
     s\<lparr>heap := (heap s)
          (store s := foldl delete_prop (heap s (store s)) (keys (heap s (store s))))\<rparr>"

section \<open>Loading\<close>

record load_opts =
  filePattern :: "(string \<Rightarrow> bool) option"
  fileEncoding :: "string option"
  fileParser :: "parser option"
  pathNormalizer :: "(string \<Rightarrow> string) option"
  defaultProfile :: "string option"
  profile :: "string option"
  dryRun :: "bool option"

text \<open>Calling \<open>load(dir, done)\<close> without options is calling it with \<open>{}\<close>.\<close>

definition no_opts :: load_opts where
  "no_opts = \<lparr>filePattern = None, fileEncoding = None, fileParser = None,
     pathNormalizer = None, defaultProfile = None, profile = None, dryRun = None\<rparr>"

text \<open>
  The options after \<open>_.defaults\<close>. The defaults of \<open>load\<close> name no path normaliser, so
  that option stays as the caller gave it; the profile defaults to \<open>NODE_ENV\<close>, which may
  be unset.
\<close>

record options =
  o_filePattern :: "string \<Rightarrow> bool"
  o_fileEncoding :: string
  o_fileParser :: parser
  o_pathNormalizer :: "(string \<Rightarrow> string) option"
  o_defaultProfile :: string
  o_profile :: "string option"
  o_dryRun :: bool

definition defaults :: "env \<Rightarrow> load_opts \<Rightarrow> options" where
  "defaults e opts =
     \<lparr>o_filePattern = (case filePattern opts of None \<Rightarrow> filePatterns_yaml | Some p \<Rightarrow> p),
      o_fileEncoding = (case fileEncoding opts of None \<Rightarrow> ''utf8'' | Some c \<Rightarrow> c),
      o_fileParser = (case fileParser opts of None \<Rightarrow> parseYAML e | Some p \<Rightarrow> p),
      o_pathNormalizer = pathNormalizer opts,
      o_defaultProfile = (case defaultProfile opts of None \<Rightarrow> ''default'' | Some d \<Rightarrow> d),
      o_profile = (case profile opts of None \<Rightarrow> NODE_ENV e | Some p \<Rightarrow> Some p),
      o_dryRun = (case dryRun opts of None \<Rightarrow> False | Some b \<Rightarrow> b)\<rparr>"

text \<open>
  What \<open>loadFile\<close> hands on for a file: \<open>value && {path, value}\<close> is the object with the
  dotted path when the parsed value is truthy, and the falsy value itself otherwise.
\<close>

datatype config = Config string jsval | Bare jsval

text \<open>
  \<open>loadFile\<close>. The object holding the caller's path normaliser is written as the third
  argument of \<open>path.relative\<close>, which takes two; \<open>toDotPath\<close> is called with the
  relative path alone.
\<close>

definition loadFile :: "options \<Rightarrow> string \<Rightarrow> string \<Rightarrow> error + config" where
  "loadFile opts dir file =
     (case o_fileParser opts file (o_fileEncoding opts) of
        Inl err \<Rightarrow> Inl err
      | Inr v \<Rightarrow>
          Inr (if truthy v then Config (toDotPath (path_relative dir file) None) v
               else Bare v))"

text \<open>\<open>listDir\<close>: the files matching the pattern, handed on with a null error.\<close>

definition listDir :: "env \<Rightarrow> string \<Rightarrow> (string \<Rightarrow> bool) \<Rightarrow> string list option" where
  "listDir e dir pat = find_file e pat dir"

text \<open>
  \<open>async.map\<close>: every file is started; the first error to arrive is the result, and
  without an error the results are in the order of the files.
\<close>

fun first_failure :: "(string \<Rightarrow> nat) \<Rightarrow> (string \<times> (error + 'a)) list \<Rightarrow> (nat \<times> error) option" where
  "first_failure rank [] = None"
| "first_failure rank ((f, Inr v) # rest) = first_failure rank rest"
| "first_failure rank ((f, Inl err) # rest) =
     (case first_failure rank rest of
        None \<Rightarrow> Some (rank f, err)
      | Some (t, err') \<Rightarrow> if t < rank f then Some (t, err') else Some (rank f, err))"

fun results :: "(error + 'a) list \<Rightarrow> 'a list" where
  "results [] = []"
| "results (Inr v # rs) = v # results rs"
| "results (Inl err # rs) = results rs"

definition async_map :: "(string \<Rightarrow> nat) \<Rightarrow> string list \<Rightarrow> (string \<Rightarrow> error + 'a) \<Rightarrow> error + 'a list" where
  "async_map rank files iterator =
     (case first_failure rank (map (\<lambda>f. (f, iterator f)) files) of
        Some (t, err) \<Rightarrow> Inl err
      | None \<Rightarrow> Inr (results (map iterator files)))"

text \<open>
  Resolving the profile of one entry: \<open>config.value[opts.defaultProfile]\<close> and
  \<open>config.value[opts.profile]\<close>, merged into a fresh object. Reading a property of
  \<open>undefined\<close> or \<open>null\<close> throws a \<open>TypeError\<close>; an unset profile is the key
  \<open>undefined\<close>.
\<close>

fun config_value :: "config \<Rightarrow> error + jsval" where
  "config_value (Config p v) = Inr v"
| "config_value (Bare JUndefined) = Inl (TypeError ''Cannot read property of undefined'')"
| "config_value (Bare JNull) = Inl (TypeError ''Cannot read property of null'')"
| "config_value (Bare v) = Inr JUndefined"

fun js_index :: "jsval \<Rightarrow> string \<Rightarrow> error + jsval" where
  "js_index JUndefined key = Inl (TypeError ''Cannot read property of undefined'')"
| "js_index JNull key = Inl (TypeError ''Cannot read property of null'')"
| "js_index v key = Inr (get_prop v key)"

definition profile_key :: "string option \<Rightarrow> string" where
  "profile_key p = (case p of None \<Rightarrow> ''undefined'' | Some n \<Rightarrow> n)"

definition resolve_value :: "options \<Rightarrow> jsval \<Rightarrow> error + jsval" where
  "resolve_value opts v =
     (case js_index v (o_defaultProfile opts) of
        Inl err \<Rightarrow> Inl err
      | Inr defaultValue \<Rightarrow>
          (case js_index v (profile_key (o_profile opts)) of
             Inl err \<Rightarrow> Inl err
           | Inr specificValue \<Rightarrow>
               Inr (lodash_merge (JObj Plain []) [defaultValue, specificValue])))"

definition resolve_config :: "options \<Rightarrow> config \<Rightarrow> error + string \<times> jsval" where
  "resolve_config opts c =
     (case config_value c of
        Inl err \<Rightarrow> Inl err
      | Inr v \<Rightarrow>
          (case resolve_value opts v of
             Inl err \<Rightarrow> Inl err
           | Inr merged \<Rightarrow>
               (case c of
                  Config p v' \<Rightarrow> Inr (p, merged)
                | Bare b \<Rightarrow> Inl (TypeError ''Cannot create property on a primitive''))))"

fun resolve_configs :: "options \<Rightarrow> config list \<Rightarrow> error + (string \<times> jsval) list" where
  "resolve_configs opts [] = Inr []"
| "resolve_configs opts (c # cs) =
     (case resolve_config opts c of
        Inl err \<Rightarrow> Inl err
      | Inr r \<Rightarrow>
          (case resolve_configs opts cs of
             Inl err \<Rightarrow> Inl err
           | Inr rs \<Rightarrow> Inr (r # rs)))"

text \<open>Assigning every entry at its path, in order.\<close>

definition set_all :: "jsval \<Rightarrow> (string \<times> jsval) list \<Rightarrow> jsval" where
  "set_all target configs = foldl (\<lambda>t c. lodash_set t (fst c) (snd c)) target configs"

text \<open>
  How a \<open>load\<close> call ends: the completion callback is called with an error or null and
  with a result or none; or an exception is raised inside a stage, where \<open>load\<close> has no
  handler for it and does not hand it to the callback (it unwinds into whoever called the
  stage); or the file finder never calls back.
\<close>

datatype outcome =
    Callback "error option" "nat option"
  | Raised error
  | NotCalled

text \<open>
  The last stage: a dry run assigns into a fresh object and hands that on; otherwise the
  store is cleared, assigned into, and handed on.
\<close>

definition updateStore :: "options \<Rightarrow> (string \<times> jsval) list \<Rightarrow> state \<Rightarrow> outcome \<times> state" where
  "updateStore opts configs s =
     (if o_dryRun opts then
        (let testStore = next_free s;
             s1 = s\<lparr>heap := (heap s)(testStore := JObj Plain []), next_free := Suc testStore\<rparr>;
             s2 = s1\<lparr>heap := (heap s1)(testStore := set_all (heap s1 testStore) configs)\<rparr>
         in (Callback None (Some testStore), s2))
      else
        (let s1 = clear s;
             s2 = s1\<lparr>heap := (heap s1)(store s1 := set_all (heap s1 (store s1)) configs)\<rparr>
         in (Callback None (Some (store s2)), s2)))"

text \<open>The directory that is listed: a relative one is resolved against the module's.\<close>

definition absolute_dir :: "env \<Rightarrow> string \<Rightarrow> string" where
  "absolute_dir e dir = (if isAbsolute dir then dir else path_resolve (dirname e) dir)"

text \<open>
  The first three stages of the waterfall, none of which touches the store: listing,
  loading every file, resolving the profiles. They end the call, or yield the entries
  to assign.
\<close>

definition resolved_entries :: "env \<Rightarrow> string \<Rightarrow> load_opts \<Rightarrow> outcome + (string \<times> jsval) list" where
  "resolved_entries e dir0 opts0 =
     (case listDir e (absolute_dir e dir0) (o_filePattern (defaults e opts0)) of
        None \<Rightarrow> Inl NotCalled
      | Some files \<Rightarrow>
          (case async_map (finished e) files (loadFile (defaults e opts0) (absolute_dir e dir0)) of
             Inl err \<Rightarrow> Inl (Callback (Some err) None)
           | Inr configs \<Rightarrow>
               (case resolve_configs (defaults e opts0) configs of
                  Inl exn \<Rightarrow> Inl (Raised exn)
                | Inr solved \<Rightarrow> Inr solved)))"

text \<open>\<open>load(dir, opts, done)\<close>: the three stages, then the update of the store.\<close>

definition load :: "env \<Rightarrow> string \<Rightarrow> load_opts \<Rightarrow> state \<Rightarrow> outcome \<times> state" where
  "load e dir0 opts0 s =
     (case resolved_entries e dir0 opts0 of
        Inl out \<Rightarrow> (out, s)
      | Inr solved \<Rightarrow> updateStore (defaults e opts0) solved s)"

text \<open>A process makes calls to \<open>clear\<close> and \<open>load\<close>, each load in its own surroundings.\<close>

datatype call = Clear | Load env string load_opts

fun run :: "call list \<Rightarrow> state \<Rightarrow> state" where
  "run [] s = s"
| "run (Clear # cs) s = run cs (clear s)"
| "run (Load e dir opts # cs) s = run cs (snd (load e dir opts s))"

section \<open>Sample surroundings\<close>

text \<open>
  A small file system: a directory of two well-formed files, one with a file that does not
  decode, one with an empty file, one whose directory name carries the extension, one with
  dashes in a name, an empty one, and one with an unreadable file, which fails at once, next
  to a file that does not decode.
\<close>

definition sample_files :: "(string \<times> string) list" where
  "sample_files =
     [(''/app/configs/generic.yaml'', ''{default: {a: 1, b: 2}, production: {b: 3}}''),
      (''/app/configs/db/mongo.yaml'', ''{default: {host: localhost}}''),
      (''/app/broken/ok.yaml'', ''{default: {host: localhost}}''),
      (''/app/broken/bad.yaml'', ''{default: ''),
      (''/app/blank/empty.yaml'', []),
      (''/app/odd/db.yaml/x.yaml'', ''{default: {host: localhost}}''),
      (''/app/names/path-with-dashes/conf1.yaml'', ''{default: {host: localhost}}''),
      (''/app/mixed/bad.yaml'', ''{default: '')]"

definition sample_unreadable :: "string list" where
  "sample_unreadable = [''/app/mixed/locked.yaml'']"

definition sample_dirs :: "string list" where
  "sample_dirs = [''/app/configs'', ''/app/broken'', ''/app/blank'', ''/app/odd'',
     ''/app/names'', ''/app/nothing'', ''/app/mixed'']"

definition sample_tree :: jsval where
  "sample_tree =
     JObj Plain
       [(''default'', JObj Plain [(''a'', JNum 1), (''b'', JNum 2)]),
        (''production'', JObj Plain [(''b'', JNum 3)])]"

definition sample_host :: jsval where
  "sample_host = JObj Plain [(''default'', JObj Plain [(''host'', JStr ''localhost'')])]"

definition sample_decode :: "string \<Rightarrow> error + jsval" where
  "sample_decode text =
     (case map_of
        [(''{default: {a: 1, b: 2}, production: {b: 3}}'', sample_tree),
         (''{default: {host: localhost}}'', sample_host),
         ([], JUndefined)] text of
        Some v \<Rightarrow> Inr v
      | None \<Rightarrow> Inl (SyntaxError ''unexpected end of the stream''))"

definition sample_env :: env where
  "sample_env =
     \<lparr>dirname = ''/app/node_modules/hot-config/src'',
      NODE_ENV = None,
      find_file =
        (\<lambda>pat dir.
           if dir \<in> set sample_dirs
           then Some (filter (\<lambda>f. prefix (dir @ ''/'') f \<and> pat f)
                        (sample_unreadable @ map fst sample_files))
           else None),
      readFile =
        (\<lambda>file enc.
           case map_of sample_files file of
             Some text \<Rightarrow> Inr text
           | None \<Rightarrow> Inl (FsError ''EACCES: permission denied'')),
      yaml_load = sample_decode,
      JSON_parse = sample_decode,
      finished = (\<lambda>f. if f \<in> set sample_unreadable then 0 else 1)\<rparr>"

definition production_opts :: load_opts where
  "production_opts = no_opts\<lparr>profile := Some ''production''\<rparr>"

definition dry_opts :: load_opts where
  "dry_opts = no_opts\<lparr>dryRun := Some True\<rparr>"

text \<open>A caller's normaliser that keeps every segment as it is.\<close>

definition keep_opts :: load_opts where
  "keep_opts = no_opts\<lparr>pathNormalizer := Some (\<lambda>n. n)\<rparr>"

text \<open>A caller's parser that reports a plain error for every file.\<close>

definition failing_opts :: load_opts where
  "failing_opts = no_opts\<lparr>fileParser := Some (\<lambda>file enc. Inl (CustomError ''no parse''))\<rparr>"

text \<open>A state in which an earlier load has left something in the store.\<close>

definition loaded :: state where
  "loaded = \<lparr>store = 0, heap = (\<lambda>a. JUndefined)(0 := JObj Plain [(''old'', JObj Plain [])]),
     next_free = 1\<rparr>"
section \<open>Properties of the store operations\<close>

lemma foldl_delete_prop:
  "foldl delete_prop (JObj k qs) ks = JObj k (filter (\<lambda>p. fst p \<notin> set ks) qs)"
proof (induction ks arbitrary: qs)
  case Nil
  then show ?case by simp
next
  case (Cons a ks)
  have "filter (\<lambda>p. fst p \<notin> set ks) (filter (\<lambda>p. fst p \<noteq> a) qs)
        = filter (\<lambda>p. fst p \<notin> set (a # ks)) qs"
    by (induction qs) auto
  with Cons show ?case by simp
qed

lemma is_plain_obj: "is_plain v \<Longrightarrow> \<exists>ps. v = JObj Plain ps"
  by (erule is_plain.elims) auto

lemma store_clear: "store (clear s) = store s"
  by (simp add: clear_def)

lemma next_free_clear: "next_free (clear s) = next_free s"
  by (simp add: clear_def)

lemma heap_clear_other: "a \<noteq> store s \<Longrightarrow> heap (clear s) a = heap s a"
  by (simp add: clear_def)

lemma heap_clear_store:
  assumes "is_plain (heap s (store s))"
  shows "heap (clear s) (store s) = JObj Plain []"
proof -
  from assms obtain ps where ps: "heap s (store s) = JObj Plain ps"
    using is_plain_obj by blast
  have "filter (\<lambda>p. fst p \<notin> set (map fst ps)) ps = []"
    by (induction ps) auto
  with ps show ?thesis
    by (simp add: clear_def foldl_delete_prop)
qed

lemma is_plain_put_prop: "is_plain t \<Longrightarrow> is_plain (put_prop t k v)"
  by (erule is_plain.elims) auto

lemma is_plain_baseSet: "is_plain t \<Longrightarrow> is_plain (baseSet t ks v)"
  by (cases "(t, ks, v)" rule: baseSet.cases) (auto simp: Let_def is_plain_put_prop)

lemma is_plain_isObject: "is_plain t \<Longrightarrow> isObject t"
  by (erule is_plain.elims) auto

lemma is_plain_lodash_set: "is_plain t \<Longrightarrow> is_plain (lodash_set t p v)"
  by (simp add: lodash_set_def is_plain_baseSet)

lemma is_plain_set_all: "is_plain t \<Longrightarrow> is_plain (set_all t cs)"
  unfolding set_all_def
  by (induction cs arbitrary: t) (auto simp: is_plain_lodash_set)

lemma updateStore_real:
  assumes "\<not> o_dryRun opts" "wf_state s"
  shows "updateStore opts cs s =
    (Callback None (Some (store s)), s\<lparr>heap := (heap s)(store s := set_all (JObj Plain []) cs)\<rparr>)"
proof -
  have "heap (clear s) (store s) = JObj Plain []"
    using assms(2) by (simp add: wf_state_def heap_clear_store)
  then show ?thesis
    using assms(1) by (simp add: updateStore_def Let_def store_clear) (simp add: clear_def)
qed

lemma updateStore_dry:
  assumes "o_dryRun opts"
  shows "updateStore opts cs s =
    (Callback None (Some (next_free s)),
     s\<lparr>heap := (heap s)(next_free s := set_all (JObj Plain []) cs), next_free := Suc (next_free s)\<rparr>)"
  using assms by (simp add: updateStore_def Let_def)

lemma o_dryRun_defaults: "o_dryRun (defaults e opts) = (dryRun opts = Some True)"
  by (cases "dryRun opts") (auto simp: defaults_def)

lemma store_updateStore: "store (snd (updateStore opts cs s)) = store s"
  by (simp add: updateStore_def Let_def store_clear)

lemma store_load: "store (snd (load e dir opts s)) = store s"
  by (simp add: load_def store_updateStore split: sum.splits)

lemma store_run: "store (run calls s) = store s"
  by (induction calls s rule: run.induct) (simp_all add: store_clear store_load)

lemma wf_state_updateStore: "wf_state s \<Longrightarrow> wf_state (snd (updateStore opts cs s))"
  by (cases "o_dryRun opts")
     (auto simp: updateStore_real updateStore_dry wf_state_def is_plain_set_all)

lemma wf_state_load: "wf_state s \<Longrightarrow> wf_state (snd (load e dir opts s))"
  by (simp add: load_def wf_state_updateStore split: sum.splits)

lemma wf_state_clear: "wf_state s \<Longrightarrow> wf_state (clear s)"
  by (simp add: wf_state_def store_clear next_free_clear heap_clear_store)

lemma resolved_entries_Inl:
  assumes "resolved_entries e dir opts = Inl out"
  shows "out = NotCalled \<or> (\<exists>err. out = Callback (Some err) None) \<or> (\<exists>exn. out = Raised exn)"
  using assms by (auto simp: resolved_entries_def split: option.splits sum.splits)

lemma load_real_success:
  assumes "wf_state s" "\<not> o_dryRun (defaults e opts)" "resolved_entries e dir opts = Inr solved"
  shows "load e dir opts s =
    (Callback None (Some (store s)), s\<lparr>heap := (heap s)(store s := set_all (JObj Plain []) solved)\<rparr>)"
  using assms by (simp add: load_def updateStore_real)

lemma load_dry_success:
  assumes "o_dryRun (defaults e opts)" "resolved_entries e dir opts = Inr solved"
  shows "load e dir opts s =
    (Callback None (Some (next_free s)),
     s\<lparr>heap := (heap s)(next_free s := set_all (JObj Plain []) solved),
       next_free := Suc (next_free s)\<rparr>)"
  using assms by (simp add: load_def updateStore_dry)

lemma load_aborted:
  assumes "resolved_entries e dir opts = Inl out"
  shows "load e dir opts s = (out, s)"
  using assms by (simp add: load_def)

section \<open>Facts about the sample surroundings\<close>

lemma wf_state_loaded: "wf_state loaded"
  by code_simp

lemma wf_state_initial: "wf_state initial"
  by code_simp

lemma real_no_opts: "\<not> o_dryRun (defaults sample_env no_opts)"
  by code_simp

lemma dry_dry_opts: "o_dryRun (defaults sample_env dry_opts)"
  by code_simp

lemma entries_configs:
  "resolved_entries sample_env ''/app/configs'' no_opts =
     Inr [(''generic'', JObj Plain [(''a'', JNum 1), (''b'', JNum 2)]),
          (''db.mongo'', JObj Plain [(''host'', JStr ''localhost'')])]"
  by code_simp

lemma entries_configs_dry:
  "resolved_entries sample_env ''/app/configs'' dry_opts =
     Inr [(''generic'', JObj Plain [(''a'', JNum 1), (''b'', JNum 2)]),
          (''db.mongo'', JObj Plain [(''host'', JStr ''localhost'')])]"
  by code_simp

lemma tree_configs:
  "set_all (JObj Plain [])
     [(''generic'', JObj Plain [(''a'', JNum 1), (''b'', JNum 2)]),
      (''db.mongo'', JObj Plain [(''host'', JStr ''localhost'')])] =
   JObj Plain
     [(''generic'', JObj Plain [(''a'', JNum 1), (''b'', JNum 2)]),
      (''db'', JObj Plain [(''mongo'', JObj Plain [(''host'', JStr ''localhost'')])])]"
  by code_simp

lemma listing_nothing:
  "listDir sample_env (absolute_dir sample_env ''/app/nothing'')
     (o_filePattern (defaults sample_env no_opts)) = Some []"
  by code_simp

section \<open>The claims about the store\<close>

text \<open>
  C2. The module's store is one object for the whole life of the process: after any
  sequence of calls to clear and load, after clear, and after any load (successful, failed or
  dry) the binding holds the address it held before; and a successful load that is not a
  dry run hands that same address to the callback, where a reference taken before the load
  finds the newly assigned entries.
\<close>

theorem store_identity:
  "store (run calls s) = store s \<and> store (clear s) = store s \<and>
   store (snd (load e dir opts s)) = store s \<and>
   (wf_state s \<longrightarrow> \<not> o_dryRun (defaults e opts) \<longrightarrow> resolved_entries e dir opts = Inr solved \<longrightarrow>
      fst (load e dir opts s) = Callback None (Some (store s)) \<and>
      heap (snd (load e dir opts s)) (store s) = set_all (JObj Plain []) solved)"
proof -
  have "wf_state s \<Longrightarrow> \<not> o_dryRun (defaults e opts) \<Longrightarrow> resolved_entries e dir opts = Inr solved \<Longrightarrow>
      fst (load e dir opts s) = Callback None (Some (store s)) \<and>
      heap (snd (load e dir opts s)) (store s) = set_all (JObj Plain []) solved"
    by (simp add: load_real_success)
  then show ?thesis
    by (simp add: store_run store_clear store_load)
qed

theorem store_identity_witness:
  "store (run [Load sample_env ''/app/configs'' no_opts, Clear,
               Load sample_env ''/app/broken'' no_opts,
               Load sample_env ''/app/configs'' dry_opts] loaded) = 0 \<and>
   store (clear loaded) = 0 \<and>
   fst (load sample_env ''/app/configs'' no_opts loaded) = Callback None (Some 0) \<and>
   heap (snd (load sample_env ''/app/configs'' no_opts loaded)) 0 =
     JObj Plain
       [(''generic'', JObj Plain [(''a'', JNum 1), (''b'', JNum 2)]),
        (''db'', JObj Plain [(''mongo'', JObj Plain [(''host'', JStr ''localhost'')])])]"
proof -
  have st: "store loaded = 0"
    by (simp add: loaded_def)
  show ?thesis
    using store_identity [of "[Load sample_env ''/app/configs'' no_opts, Clear,
               Load sample_env ''/app/broken'' no_opts,
               Load sample_env ''/app/configs'' dry_opts]" loaded sample_env
               "''/app/configs''" no_opts
               "[(''generic'', JObj Plain [(''a'', JNum 1), (''b'', JNum 2)]),
                 (''db.mongo'', JObj Plain [(''host'', JStr ''localhost'')])]"]
      wf_state_loaded real_no_opts entries_configs tree_configs st
    by simp
qed

text \<open>
  C3. A load with the option dryRun set to true never mutates the store: the binding, the
  contents of the store object and every object allocated before the call are as they
  were, whatever the outcome; and the tree handed to the callback is a newly allocated
  object, different from the store, that holds the resolved entries.
\<close>

theorem dry_run_leaves_store_untouched:
  assumes "wf_state s" "dryRun opts = Some True"
  shows "store (snd (load e dir opts s)) = store s \<and>
         heap (snd (load e dir opts s)) (store s) = heap s (store s) \<and>
         (\<forall>a. a < next_free s \<longrightarrow> heap (snd (load e dir opts s)) a = heap s a) \<and>
         (\<forall>r. fst (load e dir opts s) = Callback None (Some r) \<longrightarrow>
              r \<noteq> store s \<and> \<not> r < next_free s \<and>
              (\<exists>solved. resolved_entries e dir opts = Inr solved \<and>
                 heap (snd (load e dir opts s)) r = set_all (JObj Plain []) solved))"
proof -
  have dry: "o_dryRun (defaults e opts)"
    using assms(2) by (simp add: o_dryRun_defaults)
  have lt: "store s < next_free s"
    using assms(1) by (simp add: wf_state_def)
  show ?thesis
  proof (cases "resolved_entries e dir opts")
    case (Inl out)
    then show ?thesis using resolved_entries_Inl [OF Inl] by (auto simp: load_def)
  next
    case (Inr solved)
    then show ?thesis using lt by (auto simp: load_def updateStore_dry [OF dry])
  qed
qed

theorem dry_run_leaves_store_untouched_witness:
  "wf_state loaded \<and> dryRun dry_opts = Some True \<and>
   store (snd (load sample_env ''/app/configs'' dry_opts loaded)) = 0 \<and>
   heap (snd (load sample_env ''/app/configs'' dry_opts loaded)) 0 =
     JObj Plain [(''old'', JObj Plain [])] \<and>
   fst (load sample_env ''/app/configs'' dry_opts loaded) = Callback None (Some 1)"
proof -
  have dr: "dryRun dry_opts = Some True"
    by (simp add: dry_opts_def)
  have st: "store loaded = 0" and nf: "next_free loaded = 1"
    and hp: "heap loaded 0 = JObj Plain [(''old'', JObj Plain [])]"
    by (simp_all add: loaded_def)
  have out: "fst (load sample_env ''/app/configs'' dry_opts loaded) = Callback None (Some 1)"
    by (simp add: load_dry_success [OF dry_dry_opts entries_configs_dry] nf)
  show ?thesis
    using dry_run_leaves_store_untouched [OF wf_state_loaded dr, of sample_env "''/app/configs''"]
      wf_state_loaded dr st hp out
    by simp
qed

text \<open>
  C4. For every list of resolved entries, the tree that the last stage of a dry run hands
  to the callback equals the contents the store has after the last stage of a load that
  is not a dry run: both assign the same entries, one into a fresh empty object, the other
  into the cleared store.
\<close>

theorem dry_run_tree_equals_store_contents:
  assumes "wf_state s'" "o_dryRun od" "\<not> o_dryRun orl"
  shows "\<exists>r. fst (updateStore od cs s) = Callback None (Some r) \<and>
             fst (updateStore orl cs s') = Callback None (Some (store s')) \<and>
             heap (snd (updateStore od cs s)) r = heap (snd (updateStore orl cs s')) (store s')"
  using assms by (simp add: updateStore_real updateStore_dry)

theorem dry_run_tree_equals_store_contents_witness:
  "wf_state loaded \<and> o_dryRun (defaults sample_env dry_opts) \<and>
   \<not> o_dryRun (defaults sample_env no_opts) \<and>
   (\<exists>r. fst (updateStore (defaults sample_env dry_opts) [(''db.mongo'', sample_host)] initial) =
           Callback None (Some r) \<and>
        fst (updateStore (defaults sample_env no_opts) [(''db.mongo'', sample_host)] loaded) =
           Callback None (Some (store loaded)) \<and>
        heap (snd (updateStore (defaults sample_env dry_opts) [(''db.mongo'', sample_host)] initial)) r =
        heap (snd (updateStore (defaults sample_env no_opts) [(''db.mongo'', sample_host)] loaded))
          (store loaded))"
  using dry_run_tree_equals_store_contents [OF wf_state_loaded dry_dry_opts real_no_opts,
      of "[(''db.mongo'', sample_host)]" initial]
    wf_state_loaded dry_dry_opts real_no_opts
  by simp

text \<open>
  C8. When file discovery yields no file, the load succeeds: a load that is not a dry run
  calls back with a null error and the store, which is left empty whatever it held; a dry
  run calls back with a null error and a fresh empty object, and leaves the store as it was.
\<close>

theorem empty_directory_load:
  assumes "wf_state s"
    and "listDir e (absolute_dir e dir) (o_filePattern (defaults e opts)) = Some []"
  shows "(\<not> o_dryRun (defaults e opts) \<longrightarrow>
            fst (load e dir opts s) = Callback None (Some (store s)) \<and>
            store (snd (load e dir opts s)) = store s \<and>
            heap (snd (load e dir opts s)) (store s) = JObj Plain []) \<and>
         (o_dryRun (defaults e opts) \<longrightarrow>
            fst (load e dir opts s) = Callback None (Some (next_free s)) \<and>
            next_free s \<noteq> store s \<and>
            heap (snd (load e dir opts s)) (next_free s) = JObj Plain [] \<and>
            heap (snd (load e dir opts s)) (store s) = heap s (store s))"
proof -
  have ent: "resolved_entries e dir opts = Inr []"
    using assms(2) by (simp add: resolved_entries_def async_map_def)
  have lt: "store s < next_free s"
    using assms(1) by (simp add: wf_state_def)
  show ?thesis
    using lt assms(1) by (auto simp: load_def ent updateStore_real updateStore_dry set_all_def)
qed

theorem empty_directory_load_witness:
  "wf_state loaded \<and>
   listDir sample_env (absolute_dir sample_env ''/app/nothing'')
     (o_filePattern (defaults sample_env no_opts)) = Some [] \<and>
   fst (load sample_env ''/app/nothing'' no_opts loaded) = Callback None (Some 0) \<and>
   heap (snd (load sample_env ''/app/nothing'' no_opts loaded)) 0 = JObj Plain []"
proof -
  have st: "store loaded = 0"
    by (simp add: loaded_def)
  show ?thesis
    using empty_directory_load [OF wf_state_loaded listing_nothing]
      wf_state_loaded listing_nothing real_no_opts st
    by simp
qed

text \<open>
  C9. Loading the same unchanged directory twice with the same options, not as a dry run
  and both times with success, is idempotent: the second load leaves the store, and the
  whole state, as the first load left it.
\<close>

theorem reload_is_idempotent:
  assumes "wf_state s0" "\<not> o_dryRun (defaults e opts)"
    and "load e dir opts s0 = (Callback None (Some r1), s1)"
    and "load e dir opts s1 = (Callback None (Some r2), s2)"
  shows "heap s2 (store s2) = heap s1 (store s1) \<and> store s2 = store s1 \<and> r2 = r1 \<and> s2 = s1"
proof -
  have wf1: "wf_state s1"
    using wf_state_load [OF assms(1), of e dir opts] assms(3) by simp
  show ?thesis
  proof (cases "resolved_entries e dir opts")
    case (Inl out)
    then show ?thesis using assms(3,4) by (auto simp: load_def)
  next
    case (Inr solved)
    then show ?thesis
      using assms(3,4) updateStore_real [OF assms(2) assms(1), of solved]
        updateStore_real [OF assms(2) wf1, of solved]
      by (auto simp: load_def)
  qed
qed

theorem reload_is_idempotent_witness:
  "wf_state loaded \<and> \<not> o_dryRun (defaults sample_env no_opts) \<and>
   fst (load sample_env ''/app/configs'' no_opts loaded) = Callback None (Some 0) \<and>
   fst (load sample_env ''/app/configs'' no_opts
          (snd (load sample_env ''/app/configs'' no_opts loaded))) = Callback None (Some 0) \<and>
   snd (load sample_env ''/app/configs'' no_opts
          (snd (load sample_env ''/app/configs'' no_opts loaded))) =
   snd (load sample_env ''/app/configs'' no_opts loaded)"
proof -
  let ?s1 = "snd (load sample_env ''/app/configs'' no_opts loaded)"
  let ?s2 = "snd (load sample_env ''/app/configs'' no_opts ?s1)"
  have st: "store loaded = 0"
    by (simp add: loaded_def)
  have wf1: "wf_state ?s1"
    by (rule wf_state_load [OF wf_state_loaded])
  have st1: "store ?s1 = 0"
    by (simp add: store_load st)
  have first: "load sample_env ''/app/configs'' no_opts loaded = (Callback None (Some 0), ?s1)"
    using load_real_success [OF wf_state_loaded real_no_opts entries_configs] st
    by simp
  have second: "load sample_env ''/app/configs'' no_opts ?s1 = (Callback None (Some 0), ?s2)"
    using load_real_success [OF wf1 real_no_opts entries_configs] st1
    by simp
  have same: "?s2 = ?s1"
    using reload_is_idempotent [OF wf_state_loaded real_no_opts first second] by simp
  have f1: "fst (load sample_env ''/app/configs'' no_opts loaded) = Callback None (Some 0)"
    by (metis first fst_conv)
  have f2: "fst (load sample_env ''/app/configs'' no_opts ?s1) = Callback None (Some 0)"
    by (metis second fst_conv)
  show ?thesis
    by (intro conjI wf_state_loaded real_no_opts f1 f2 same)
qed

section \<open>Properties of the path functions\<close>

lemma prefix_append_short:
  assumes "prefix pat (xs @ r)" "length pat \<le> length xs"
  shows "prefix pat xs"
proof -
  from assms(1) obtain zs where "xs @ r = pat @ zs"
    by (auto simp: prefix_def)
  then have "take (length pat) (xs @ r) = pat"
    by simp
  with assms(2) have "take (length pat) xs = pat"
    by simp
  then show ?thesis
    by (metis take_is_prefix)
qed

lemma replace_first_append:
  assumes "pat \<noteq> []" "d = u @ pat @ v"
  shows "replace_first pat (d @ r) = replace_first pat d @ r"
  using assms(2)
proof (induction d arbitrary: u)
  case Nil
  with assms(1) show ?case by simp
next
  case (Cons x d')
  show ?case
  proof (cases "prefix pat (x # d')")
    case True
    then have len: "length pat \<le> length (x # d')"
      by (rule prefix_length_le)
    have "prefix pat (x # d' @ r)"
      using prefix_prefix [OF True, of r] by simp
    have "drop (length pat) ((x # d') @ r) = drop (length pat) (x # d') @ r"
      unfolding drop_append using len by simp
    with True \<open>prefix pat (x # d' @ r)\<close> show ?thesis by simp
  next
    case False
    have "u \<noteq> []"
    proof
      assume "u = []"
      with Cons.prems have "prefix pat (x # d')" by (simp add: prefix_def)
      with False show False by simp
    qed
    then obtain u' where u: "u = x # u'" and d': "d' = u' @ pat @ v"
      using Cons.prems by (cases u) auto
    have "length pat \<le> length (x # d')"
      using d' by simp
    with False have "\<not> prefix pat ((x # d') @ r)"
      using prefix_append_short by blast
    with False Cons.IH [OF d'] show ?thesis by simp
  qed
qed

lemma replace_first_deletes:
  assumes "pat \<noteq> []" "d = u @ pat @ v"
  shows "\<exists>u' v'. d = u' @ pat @ v' \<and> replace_first pat d = u' @ v'"
  using assms(2)
proof (induction d arbitrary: u)
  case Nil
  with assms(1) show ?case by simp
next
  case (Cons x d')
  show ?case
  proof (cases "prefix pat (x # d')")
    case True
    then obtain v' where eq: "x # d' = pat @ v'"
      by (auto simp: prefix_def)
    have "replace_first pat (x # d') = drop (length pat) (x # d')"
      using True by simp
    also have "\<dots> = v'"
      by (simp only: eq) simp
    finally have "x # d' = [] @ pat @ v' \<and> replace_first pat (x # d') = [] @ v'"
      using eq by simp
    then show ?thesis by blast
  next
    case False
    have "u \<noteq> []"
    proof
      assume "u = []"
      with Cons.prems have "prefix pat (x # d')" by (simp add: prefix_def)
      with False show False by simp
    qed
    then obtain u' where d': "d' = u' @ pat @ v"
      using Cons.prems by (cases u) auto
    from Cons.IH [OF d'] obtain u'' v'' where
      "d' = u'' @ pat @ v''" "replace_first pat d' = u'' @ v''" by blast
    then have "x # d' = (x # u'') @ pat @ v'' \<and> replace_first pat (x # d') = (x # u'') @ v''"
      using False by simp
    then show ?thesis by blast
  qed
qed

lemma js_split_not_Nil: "js_split c xs \<noteq> []"
  by (induction xs) (auto split: list.splits)

lemma js_split_no_sep: "c \<notin> set f \<Longrightarrow> js_split c f = [f]"
  by (induction f) auto

lemma js_split_append:
  assumes "c \<notin> set f"
  shows "js_split c (d @ c # f) = js_split c d @ [f]"
proof (induction d)
  case Nil
  then show ?case using assms by (simp add: js_split_no_sep)
next
  case (Cons x d)
  then show ?case using js_split_not_Nil [of c d] by (auto split: list.splits)
qed

lemma strip_trailing_sep_file:
  assumes "f \<noteq> []" "CHR ''/'' \<notin> set f"
  shows "strip_trailing_sep (d @ CHR ''/'' # f) = d @ CHR ''/'' # f"
proof -
  from assms(1) obtain y ys where r: "rev f = y # ys"
    by (cases "rev f") auto
  then have "y \<in> set f"
    by (metis list.set_intros(1) set_rev)
  with assms(2) have y: "y \<noteq> CHR ''/''"
    by auto
  have "rev (d @ CHR ''/'' # f) = y # (ys @ CHR ''/'' # rev d)"
    using r by simp
  then have "dropWhile (\<lambda>c. c = CHR ''/'') (rev (d @ CHR ''/'' # f)) = rev (d @ CHR ''/'' # f)"
    using y by simp
  then show ?thesis
    by (simp only: strip_trailing_sep_def rev_rev_ident)
qed

lemma extname_file:
  assumes "f \<noteq> []" "CHR ''/'' \<notin> set f"
  shows "suffix (extname (d @ CHR ''/'' # f)) f"
proof -
  have l: "last (js_split (CHR ''/'') (d @ CHR ''/'' # f)) = f"
    using assms(2) by (simp add: js_split_append)
  have s: "strip_trailing_sep (d @ CHR ''/'' # f) = d @ CHR ''/'' # f"
    by (rule strip_trailing_sep_file [OF assms])
  show ?thesis
    unfolding extname_def s l Let_def
    by (simp add: suffix_drop)
qed

text \<open>
  C10. The extension is removed by deleting its first occurrence in the path: when the
  extension of a file name also occurs in the directory part of the relative path, that
  occurrence is the one deleted, the file name keeps its extension, and the last segment of
  the dotted path is the normalised file name with its extension.
\<close>

theorem extension_removed_at_first_occurrence:
  assumes "f \<noteq> []" "CHR ''/'' \<notin> set f"
    and "extname (d @ ''/'' @ f) = ext" "ext \<noteq> []" "d = u @ ext @ v"
  shows "replace_first ext (d @ ''/'' @ f) = replace_first ext d @ ''/'' @ f \<and>
         (\<exists>u' v'. d = u' @ ext @ v' \<and> replace_first ext d = u' @ v') \<and>
         suffix ext f \<and>
         toDotPath (d @ ''/'' @ f) opts =
           js_join ''.''
             (map (dotpath_normalizer opts)
                (filter (\<lambda>n. n \<noteq> []) (js_split (CHR ''/'') (replace_first ext d))) @
              [dotpath_normalizer opts f])"
proof -
  have a: "replace_first ext (d @ ''/'' @ f) = replace_first ext d @ ''/'' @ f"
    by (rule replace_first_append [OF assms(4,5)])
  have b: "\<exists>u' v'. d = u' @ ext @ v' \<and> replace_first ext d = u' @ v'"
    by (rule replace_first_deletes [OF assms(4,5)])
  have c: "suffix ext f"
    using extname_file [OF assms(1,2), of d] assms(3) by simp
  have "js_split (CHR ''/'') (replace_first ext d @ ''/'' @ f) =
        js_split (CHR ''/'') (replace_first ext d) @ [f]"
    using assms(2) by (simp add: js_split_append)
  then have e: "toDotPath (d @ ''/'' @ f) opts =
           js_join ''.''
             (map (dotpath_normalizer opts)
                (filter (\<lambda>n. n \<noteq> []) (js_split (CHR ''/'') (replace_first ext d))) @
              [dotpath_normalizer opts f])"
    using assms(1,3) a by (simp add: toDotPath_def Let_def)
  from a b c e show ?thesis by blast
qed

theorem extension_removed_at_first_occurrence_witness:
  "extname ''db.yaml/x.yaml'' = ''.yaml'' \<and>
   replace_first ''.yaml'' ''db.yaml/x.yaml'' = ''db/x.yaml'' \<and>
   suffix ''.yaml'' ''x.yaml'' \<and>
   toDotPath ''db.yaml/x.yaml'' None = ''db.xYaml''"
proof -
  have f: "''x.yaml'' \<noteq> []" and n: "CHR ''/'' \<notin> set ''x.yaml''"
    by simp_all
  have x: "extname (''db.yaml'' @ ''/'' @ ''x.yaml'') = ''.yaml''"
    by code_simp
  have e: "''.yaml'' \<noteq> []"
    by simp
  have d: "''db.yaml'' = ''db'' @ ''.yaml'' @ []"
    by simp
  have r: "replace_first ''.yaml'' ''db.yaml'' = ''db''"
    by code_simp
  have j: "js_join ''.''
             (map (dotpath_normalizer None)
                (filter (\<lambda>n. n \<noteq> []) (js_split (CHR ''/'') ''db'')) @
              [dotpath_normalizer None ''x.yaml'']) = ''db.xYaml''"
    by code_simp
  show ?thesis
    using extension_removed_at_first_occurrence [OF f n x e d, of None] x r j
    by simp
qed

section \<open>Properties of loading the files\<close>

lemma first_failure_None:
  "first_failure rank xs = None \<Longrightarrow> (h, Inl err) \<notin> set xs"
  by (induction rank xs rule: first_failure.induct) (auto split: option.splits prod.splits if_splits)

lemma first_failure_least:
  "first_failure rank xs = Some (t, err) \<Longrightarrow>
     (\<exists>g. (g, Inl err) \<in> set xs \<and> t = rank g) \<and>
     (\<forall>h err'. (h, Inl err') \<in> set xs \<longrightarrow> t \<le> rank h)"
proof (induction rank xs arbitrary: t err rule: first_failure.induct)
  case (1 rank)
  then show ?case by simp
next
  case (2 rank f v rest)
  then show ?case by auto
next
  case (3 rank f e0 rest)
  show ?case
  proof (cases "first_failure rank rest")
    case None
    with "3.prems" first_failure_None [OF None] show ?thesis by auto
  next
    case (Some p)
    obtain t' err' where p: "p = (t', err')" by (cases p)
    from "3.IH" [of t' err'] Some p have ih:
      "(\<exists>g. (g, Inl err') \<in> set rest \<and> t' = rank g) \<and>
       (\<forall>h e'. (h, Inl e') \<in> set rest \<longrightarrow> t' \<le> rank h)"
      by simp
    show ?thesis
    proof (cases "t' < rank f")
      case True
      with "3.prems" Some p have "t = t'" "err = err'" by auto
      with ih True show ?thesis by fastforce
    next
      case False
      with "3.prems" Some p have "t = rank f" "err = e0" by auto
      with ih False show ?thesis by fastforce
    qed
  qed
qed

lemma results_all_Inr:
  "\<forall>f\<in>set files. \<exists>v. it f = Inr v \<Longrightarrow> results (map it files) = map (\<lambda>f. projr (it f)) files"
  by (induction files) auto

lemma async_map_Inl:
  assumes "f \<in> set files" "it f = Inl err0"
  shows "\<exists>g err. g \<in> set files \<and> it g = Inl err \<and>
           (\<forall>h\<in>set files. isl (it h) \<longrightarrow> rank g \<le> rank h) \<and>
           async_map rank files it = Inl err"
proof -
  let ?xs = "map (\<lambda>f. (f, it f)) files"
  have mem: "(f, Inl err0) \<in> set ?xs"
    using assms by force
  obtain t err where ff: "first_failure rank ?xs = Some (t, err)"
    using first_failure_None [of rank ?xs f err0] mem
    by (cases "first_failure rank ?xs") auto
  from first_failure_least [OF ff] obtain g where
    g: "(g, Inl err) \<in> set ?xs" "t = rank g"
    and least: "\<forall>h err'. (h, Inl err') \<in> set ?xs \<longrightarrow> t \<le> rank h"
    by blast
  from g(1) have gm: "g \<in> set files" "it g = Inl err"
    by auto
  have "\<forall>h\<in>set files. isl (it h) \<longrightarrow> rank g \<le> rank h"
  proof (intro ballI impI)
    fix h assume h: "h \<in> set files" "isl (it h)"
    then obtain e' where "it h = Inl e'"
      by (cases "it h") auto
    with h(1) have "(h, Inl e') \<in> set ?xs"
      by force
    with least g(2) show "rank g \<le> rank h"
      by blast
  qed
  moreover have "async_map rank files it = Inl err"
    by (simp add: async_map_def ff)
  ultimately show ?thesis
    using gm by blast
qed

lemma async_map_Inr:
  assumes "\<forall>f\<in>set files. \<exists>v. it f = Inr v"
  shows "async_map rank files it = Inr (map (\<lambda>f. projr (it f)) files)"
proof -
  let ?xs = "map (\<lambda>f. (f, it f)) files"
  have "first_failure rank ?xs = None"
  proof (cases "first_failure rank ?xs")
    case None
    then show ?thesis .
  next
    case (Some p)
    obtain t err where "p = (t, err)" by (cases p)
    with Some first_failure_least [of rank ?xs t err] obtain g where "(g, Inl err) \<in> set ?xs"
      by blast
    with assms show ?thesis by auto
  qed
  then show ?thesis
    by (simp add: async_map_def results_all_Inr [OF assms])
qed

lemma builtin_yaml_failure:
  assumes "parseYAML e file enc = Inl err" "readFile e file enc = Inr data"
  shows "\<exists>cause. yaml_load e data = Inl cause \<and> err = new_ParserError cause file"
  using assms by (auto simp: parseYAML_def split: sum.splits)

lemma builtin_json_failure:
  assumes "parseJSON e file enc = Inl err" "readFile e file enc = Inr data"
  shows "\<exists>cause. JSON_parse e data = Inl cause \<and> err = new_ParserError cause file"
  using assms by (auto simp: parseJSON_def split: sum.splits)

lemma loadFile_Inl:
  "o_fileParser opts file (o_fileEncoding opts) = Inl err \<Longrightarrow> loadFile opts dir file = Inl err"
  by (simp add: loadFile_def)

lemma loadFile_isl:
  "isl (loadFile opts dir file) = isl (o_fileParser opts file (o_fileEncoding opts))"
  by (simp add: loadFile_def split: sum.splits)

lemma loadFile_truthy:
  "o_fileParser opts file (o_fileEncoding opts) = Inr v \<Longrightarrow> truthy v \<Longrightarrow>
     loadFile opts dir file = Inr (Config (toDotPath (path_relative dir file) None) v)"
  by (simp add: loadFile_def)

lemma loadFile_ignores_normalizer:
  "loadFile (opts\<lparr>o_pathNormalizer := n\<rparr>) dir file = loadFile opts dir file"
  by (simp add: loadFile_def)

lemma js_index_truthy: "truthy v \<Longrightarrow> js_index v key = Inr (get_prop v key)"
  by (cases v) auto

lemma resolve_config_truthy:
  "truthy v \<Longrightarrow>
     resolve_config opts (Config p v) =
       Inr (p, lodash_merge (JObj Plain [])
                 [get_prop v (o_defaultProfile opts), get_prop v (profile_key (o_profile opts))])"
  by (simp add: resolve_config_def resolve_value_def js_index_truthy)

lemma resolve_configs_truthy:
  "\<forall>c\<in>set cs. \<exists>p v. c = Config p v \<and> truthy v \<Longrightarrow> \<exists>solved. resolve_configs opts cs = Inr solved"
proof (induction cs)
  case Nil
  then show ?case by simp
next
  case (Cons c cs)
  then obtain p v where "c = Config p v" "truthy v" by auto
  moreover from Cons obtain solved where "resolve_configs opts cs = Inr solved" by auto
  ultimately show ?case by (simp add: resolve_config_truthy)
qed

lemma load_parser_failure:
  assumes "listDir e (absolute_dir e dir) (o_filePattern (defaults e opts)) = Some files"
    and "f \<in> set files"
    and "o_fileParser (defaults e opts) f (o_fileEncoding (defaults e opts)) = Inl err0"
  shows "\<exists>g err. g \<in> set files \<and>
           o_fileParser (defaults e opts) g (o_fileEncoding (defaults e opts)) = Inl err \<and>
           (\<forall>h\<in>set files. isl (o_fileParser (defaults e opts) h (o_fileEncoding (defaults e opts))) \<longrightarrow>
              finished e g \<le> finished e h) \<and>
           load e dir opts s = (Callback (Some err) None, s)"
proof -
  let ?it = "loadFile (defaults e opts) (absolute_dir e dir)"
  have itf: "?it f = Inl err0"
    using assms(3) by (rule loadFile_Inl)
  from async_map_Inl [of f files ?it err0 "finished e"] assms(2) itf obtain g err where
    g: "g \<in> set files" "?it g = Inl err"
    and least: "\<forall>h\<in>set files. isl (?it h) \<longrightarrow> finished e g \<le> finished e h"
    and am: "async_map (finished e) files ?it = Inl err"
    by blast
  have pg: "o_fileParser (defaults e opts) g (o_fileEncoding (defaults e opts)) = Inl err"
    using g(2) by (auto simp: loadFile_def split: sum.splits)
  have "load e dir opts s = (Callback (Some err) None, s)"
    using assms(1) am by (simp add: load_def resolved_entries_def)
  with g(1) pg least show ?thesis
    by (auto simp: loadFile_isl)
qed

lemma load_all_truthy:
  assumes "listDir e (absolute_dir e dir) (o_filePattern (defaults e opts)) = Some files"
    and "\<forall>f\<in>set files. \<exists>v. o_fileParser (defaults e opts) f (o_fileEncoding (defaults e opts)) = Inr v \<and> truthy v"
  shows "\<exists>solved. resolved_entries e dir opts = Inr solved"
proof -
  let ?it = "loadFile (defaults e opts) (absolute_dir e dir)"
  have ok: "\<forall>f\<in>set files. \<exists>v. ?it f = Inr v"
    using assms(2) by (auto simp: loadFile_def)
  have "\<forall>c\<in>set (map (\<lambda>f. projr (?it f)) files). \<exists>p v. c = Config p v \<and> truthy v"
    using assms(2) by (auto simp: loadFile_def)
  from resolve_configs_truthy [OF this] obtain solved where
    "resolve_configs (defaults e opts) (map (\<lambda>f. projr (?it f)) files) = Inr solved"
    by blast
  then show ?thesis
    using assms(1) by (simp add: resolved_entries_def async_map_Inr [OF ok])
qed

lemma updateStore_calls_back: "\<exists>r. fst (updateStore opts cs s) = Callback None (Some r)"
  by (simp add: updateStore_def Let_def)

lemma load_callback_shape:
  assumes "fst (load e dir opts s) = Callback err res"
  shows "(\<exists>x. err = Some x \<and> res = None \<and> snd (load e dir opts s) = s) \<or>
         (err = None \<and> (\<exists>r. res = Some r))"
proof (cases "resolved_entries e dir opts")
  case (Inl out)
  with assms resolved_entries_Inl [OF Inl] show ?thesis
    by (auto simp: load_def)
next
  case (Inr solved)
  with assms updateStore_calls_back [of "defaults e opts" solved s] show ?thesis
    by (auto simp: load_def)
qed

section \<open>Properties of the profile merge\<close>

text \<open>
  For a value that is truthy, the resolved value is the merge of its two profile sections
  into a fresh object. Merging a well-formed plain object into the fresh object copies it,
  so a value with only the default section resolves to that section; a value with neither
  section resolves to the empty object; a leaf of the active section overrides the default
  section at its key, and a key the active section does not have keeps what the default
  section has there.
\<close>

lemma assignMergeValue_fresh:
  "key \<notin> set (map fst acc) \<Longrightarrow> assignMergeValue (JObj k acc) key v = JObj k (acc @ [(key, v)])"
proof -
  assume a: "key \<notin> set (map fst acc)"
  have "AList.update key v acc = acc @ [(key, v)]"
    using a by (induction acc) auto
  with a show ?thesis
    by (cases v) (auto simp: assignMergeValue_def)
qed

lemma get_prop_fresh: "key \<notin> set (map fst acc) \<Longrightarrow> get_prop (JObj k acc) key = JUndefined"
  by (simp add: map_of_eq_None_iff [THEN iffD2] image_iff)

lemma merge_props_fresh:
  "wf_tree (JObj k ps) \<Longrightarrow> distinct (map fst (acc @ ps)) \<Longrightarrow>
     merge_props (JObj k0 acc) ps = JObj k0 (acc @ ps)"
proof (induction "JObj k ps" arbitrary: k ps acc k0 rule: jsval.induct)
  case (JObj k ps)
  have inner: "\<And>qs acc k0. set qs \<subseteq> set ps \<Longrightarrow> list_all (\<lambda>p. wf_tree (snd p)) qs \<Longrightarrow>
      distinct (map fst (acc @ qs)) \<Longrightarrow> merge_props (JObj k0 acc) qs = JObj k0 (acc @ qs)"
  proof -
    fix qs acc k0
    show "set qs \<subseteq> set ps \<Longrightarrow> list_all (\<lambda>p. wf_tree (snd p)) qs \<Longrightarrow>
      distinct (map fst (acc @ qs)) \<Longrightarrow> merge_props (JObj k0 acc) qs = JObj k0 (acc @ qs)"
    proof (induction qs arbitrary: acc)
      case Nil
      then show ?case by simp
    next
      case (Cons q qs)
      obtain key sv where q: "q = (key, sv)" by (cases q)
      have fresh: "key \<notin> set (map fst acc)"
        using Cons.prems(3) q by auto
      have rest: "distinct (map fst ((acc @ [(key, sv)]) @ qs))"
        using Cons.prems(3) q by auto
      have sub: "set qs \<subseteq> set ps" and wfs: "list_all (\<lambda>p. wf_tree (snd p)) qs"
        using Cons.prems(1,2) by auto
      show ?case
      proof (cases sv)
        case (JObj k' ps')
        have mem: "(key, sv) \<in> set ps"
          using Cons.prems(1) q by auto
        have wf': "wf_tree (JObj k' ps')"
          using Cons.prems(2) q JObj by simp
        have copy: "merge_props (JObj k' []) ps' = JObj k' ps'"
        proof -
          have sn: "JObj k' ps' \<in> Basic_BNFs.snds (key, sv)"
            using JObj by (simp add: snds.simps)
          have "distinct (map fst ([] @ ps'))"
            using wf' by simp
          from JObj.hyps [OF mem sn wf' this, of k'] show ?thesis
            by simp
        qed
        have nv: "(case k' of Array \<Rightarrow> (if isArray (get_prop (JObj k0 acc) key) then get_prop (JObj k0 acc) key else JObj Array [])
                    | Plain \<Rightarrow> (if isObject (get_prop (JObj k0 acc) key) then get_prop (JObj k0 acc) key else JObj Plain [])) = JObj k' []"
          using get_prop_fresh [OF fresh, of k0] by (cases k') auto
        show ?thesis
          using Cons.IH [OF sub wfs rest] q JObj copy nv fresh
          by (simp add: Let_def assignMergeValue_fresh del: get_prop.simps)
      qed (use Cons.IH [OF sub wfs rest] q fresh in \<open>simp_all add: assignMergeValue_fresh\<close>)
    qed
  qed
  from JObj.prems show ?case
    using inner [of ps acc k0] by simp
qed

lemma merge_default_only:
  assumes "wf_tree (JObj Plain ps)"
  shows "lodash_merge (JObj Plain []) [JObj Plain ps, JUndefined] = JObj Plain ps"
  using merge_props_fresh [OF assms, of "[]" Plain] assms
  by (simp add: lodash_merge_def)


lemma isObject_put_prop: "isObject obj \<Longrightarrow> isObject (put_prop obj key v)"
  by (cases obj) auto

lemma isObject_assignMergeValue: "isObject obj \<Longrightarrow> isObject (assignMergeValue obj key v)"
  by (cases v) (auto simp: assignMergeValue_def isObject_put_prop)

lemma get_prop_put_same: "isObject obj \<Longrightarrow> get_prop (put_prop obj key v) key = v"
  by (cases obj) (auto simp: update_conv')

lemma get_prop_put_other: "key' \<noteq> key \<Longrightarrow> get_prop (put_prop obj key' v) key = get_prop obj key"
  by (cases obj) (auto simp: update_conv')

lemma get_prop_assign_same:
  "isObject obj \<Longrightarrow> v \<noteq> JUndefined \<Longrightarrow> get_prop (assignMergeValue obj key v) key = v"
  by (cases v) (auto simp: assignMergeValue_def get_prop_put_same)

lemma get_prop_assign_other:
  "key \<noteq> key' \<Longrightarrow> get_prop (assignMergeValue obj key' v) key = get_prop obj key"
  using get_prop_put_other [of key' key obj]
  by (cases v) (auto simp: assignMergeValue_def)

lemma merge_step:
  "\<exists>w. merge_props obj ((key, sv) # rest) = merge_props (assignMergeValue obj key w) rest \<and>
       (\<not> isObject sv \<longrightarrow> w = sv)"
  by (cases sv) (auto simp: Let_def)

lemma isObject_merge_props: "isObject obj \<Longrightarrow> isObject (merge_props obj qs)"
proof (induction qs arbitrary: obj)
  case Nil
  then show ?case by simp
next
  case (Cons q qs)
  obtain key sv where q: "q = (key, sv)" by (cases q)
  from merge_step [of obj key sv qs] obtain w where
    "merge_props obj ((key, sv) # qs) = merge_props (assignMergeValue obj key w) qs"
    by blast
  with Cons q show ?case
    by (simp add: isObject_assignMergeValue del: merge_props.simps)
qed

lemma get_prop_merge_other:
  "key \<notin> set (map fst qs) \<Longrightarrow> get_prop (merge_props obj qs) key = get_prop obj key"
proof (induction qs arbitrary: obj)
  case Nil
  then show ?case by simp
next
  case (Cons q qs)
  obtain key' sv where q: "q = (key', sv)" by (cases q)
  from merge_step [of obj key' sv qs] obtain w where
    "merge_props obj ((key', sv) # qs) = merge_props (assignMergeValue obj key' w) qs"
    by blast
  with Cons q show ?case
    by (simp add: get_prop_assign_other del: merge_props.simps)
qed

lemma get_prop_merge_leaf:
  assumes "isObject obj" "(key, v) \<in> set qs" "distinct (map fst qs)"
    and "\<not> isObject v" "v \<noteq> JUndefined"
  shows "get_prop (merge_props obj qs) key = v"
  using assms(1,2,3)
proof (induction qs arbitrary: obj)
  case Nil
  then show ?case by simp
next
  case (Cons q qs)
  obtain key' sv where q: "q = (key', sv)" by (cases q)
  from merge_step [of obj key' sv qs] obtain w where
    w: "merge_props obj ((key', sv) # qs) = merge_props (assignMergeValue obj key' w) qs"
    and leaf: "\<not> isObject sv \<longrightarrow> w = sv"
    by blast
  have ob: "isObject (assignMergeValue obj key' w)"
    using Cons.prems(1) by (rule isObject_assignMergeValue)
  show ?case
  proof (cases "(key, v) \<in> set qs")
    case True
    with Cons.IH [OF ob True] Cons.prems(3) q w show ?thesis
      by (simp del: merge_props.simps)
  next
    case False
    with Cons.prems(2) q have same: "key' = key" "sv = v" by auto
    with Cons.prems(3) q have "key \<notin> set (map fst qs)" by auto
    then have "get_prop (merge_props (assignMergeValue obj key' w) qs) key =
               get_prop (assignMergeValue obj key' w) key"
      by (rule get_prop_merge_other)
    also have "\<dots> = v"
      using same leaf assms(4,5) Cons.prems(1) by (simp add: get_prop_assign_same)
    finally show ?thesis
      using q w by (simp del: merge_props.simps)
  qed
qed

lemma active_section_wins:
  assumes "(key, v) \<in> set as" "distinct (map fst as)" "\<not> isObject v" "v \<noteq> JUndefined"
  shows "get_prop (lodash_merge (JObj Plain []) [dflt, JObj Plain as]) key = v"
proof -
  have "isObject (if truthy dflt then baseMerge (JObj Plain []) dflt else JObj Plain [])"
  proof (cases dflt)
    case (JObj k ps)
    then show ?thesis by (simp add: isObject_merge_props)
  next
    case (JStr s)
    have "isObject (foldl (\<lambda>obj p. assignMergeValue obj (fst p) (snd p)) obj xs)"
      if "isObject obj" for obj xs
      using that by (induction xs arbitrary: obj) (auto simp: isObject_assignMergeValue)
    with JStr show ?thesis by simp
  qed auto
  from get_prop_merge_leaf [OF this assms] show ?thesis
    by (simp add: lodash_merge_def)
qed

lemma default_section_kept:
  assumes "wf_tree (JObj Plain ds)" "key \<notin> set (map fst as)"
  shows "get_prop (lodash_merge (JObj Plain []) [JObj Plain ds, JObj Plain as]) key =
         get_prop (JObj Plain ds) key"
  using merge_props_fresh [OF assms(1), of "[]" Plain] assms(1)
    get_prop_merge_other [OF assms(2), of "JObj Plain ds"]
  by (simp add: lodash_merge_def)

lemma resolve_value_absent_sections:
  assumes "truthy v" "get_prop v (o_defaultProfile opts) = JUndefined"
    and "get_prop v (profile_key (o_profile opts)) = JUndefined"
  shows "resolve_value opts v = Inr (JObj Plain [])"
  using assms by (simp add: resolve_value_def js_index_truthy lodash_merge_def)

lemma resolve_value_default_only:
  assumes "truthy v" "get_prop v (o_defaultProfile opts) = JObj Plain ds" "wf_tree (JObj Plain ds)"
    and "get_prop v (profile_key (o_profile opts)) = JUndefined"
  shows "resolve_value opts v = Inr (JObj Plain ds)"
  using assms merge_default_only [OF assms(3)]
  by (simp add: resolve_value_def js_index_truthy)

section \<open>Facts about loading the sample directories\<close>

lemma listing_broken:
  "listDir sample_env (absolute_dir sample_env ''/app/broken'')
     (o_filePattern (defaults sample_env no_opts)) =
   Some [''/app/broken/ok.yaml'', ''/app/broken/bad.yaml'']"
  by code_simp

lemma listing_configs:
  "listDir sample_env (absolute_dir sample_env ''/app/configs'')
     (o_filePattern (defaults sample_env no_opts)) =
   Some [''/app/configs/generic.yaml'', ''/app/configs/db/mongo.yaml'']"
  by code_simp

lemma parse_bad:
  "o_fileParser (defaults sample_env no_opts) ''/app/broken/bad.yaml''
     (o_fileEncoding (defaults sample_env no_opts)) =
   Inl (new_ParserError (SyntaxError ''unexpected end of the stream'') ''/app/broken/bad.yaml'')"
  by code_simp

lemma parse_ok:
  "o_fileParser (defaults sample_env no_opts) ''/app/broken/ok.yaml''
     (o_fileEncoding (defaults sample_env no_opts)) = Inr sample_host"
  by code_simp

lemma parse_generic:
  "o_fileParser (defaults sample_env no_opts) ''/app/configs/generic.yaml''
     (o_fileEncoding (defaults sample_env no_opts)) = Inr sample_tree"
  by code_simp

lemma parse_mongo:
  "o_fileParser (defaults sample_env no_opts) ''/app/configs/db/mongo.yaml''
     (o_fileEncoding (defaults sample_env no_opts)) = Inr sample_host"
  by code_simp

lemma entries_mixed:
  "resolved_entries sample_env ''/app/mixed'' no_opts =
     Inl (Callback (Some (FsError ''EACCES: permission denied'')) None)"
  by code_simp

lemma parse_mixed_bad:
  "parseYAML sample_env ''/app/mixed/bad.yaml'' ''utf8'' =
     Inl (new_ParserError (SyntaxError ''unexpected end of the stream'') ''/app/mixed/bad.yaml'')"
  by code_simp

lemma listing_mixed:
  "listDir sample_env (absolute_dir sample_env ''/app/mixed'')
     (o_filePattern (defaults sample_env no_opts)) =
   Some [''/app/mixed/locked.yaml'', ''/app/mixed/bad.yaml'']"
  by code_simp

lemma entries_failing:
  "resolved_entries sample_env ''/app/broken'' failing_opts =
     Inl (Callback (Some (CustomError ''no parse'')) None)"
  by code_simp

lemma entries_missing:
  "resolved_entries sample_env ''/app/missing'' no_opts = Inl NotCalled"
  by code_simp

lemma listing_missing:
  "listDir sample_env (absolute_dir sample_env ''/app/missing'')
     (o_filePattern (defaults sample_env no_opts)) = None"
  by code_simp

lemma entries_blank:
  "resolved_entries sample_env ''/app/blank'' no_opts =
     Inl (Raised (TypeError ''Cannot read property of undefined''))"
  by code_simp

lemma loadFile_blank:
  "loadFile (defaults sample_env no_opts) ''/app/blank'' ''/app/blank/empty.yaml'' =
     Inr (Bare JUndefined)"
  by code_simp

lemma resolve_blank:
  "resolve_configs (defaults sample_env no_opts) [Bare JUndefined] =
     Inl (TypeError ''Cannot read property of undefined'')"
  by code_simp

lemma resolve_null:
  "resolve_configs (defaults sample_env no_opts) [Bare JNull] =
     Inl (TypeError ''Cannot read property of null'')"
  by code_simp

lemma entries_names_keep:
  "resolved_entries sample_env ''/app/names'' keep_opts =
     Inr [(''pathWithDashes.conf1'', JObj Plain [(''host'', JStr ''localhost'')])]"
  by code_simp

lemma loadFile_names_keep:
  "loadFile (defaults sample_env keep_opts) ''/app/names''
     ''/app/names/path-with-dashes/conf1.yaml'' =
   Inr (Config ''pathWithDashes.conf1'' sample_host)"
  by code_simp

lemma dotpath_names_keep:
  "toDotPath (path_relative ''/app/names'' ''/app/names/path-with-dashes/conf1.yaml'')
     (Some \<lparr>dp_pathNormalizer = Some (\<lambda>n. n)\<rparr>) = ''path-with-dashes.conf1''"
  by code_simp

text \<open>
  The profile resolution of the specification's example file: with the profile
  \<open>production\<close> the active section wins on \<open>b\<close>; with no profile set the default
  section is the result; a value with neither section resolves to the empty object.
\<close>

lemma resolve_value_production:
  "resolve_value (defaults sample_env production_opts) sample_tree =
     Inr (JObj Plain [(''a'', JNum 1), (''b'', JNum 3)])"
  by code_simp

lemma resolve_value_no_profile:
  "resolve_value (defaults sample_env no_opts) sample_tree =
     Inr (JObj Plain [(''a'', JNum 1), (''b'', JNum 2)])"
  by code_simp

lemma resolve_value_no_sections:
  "resolve_value (defaults sample_env no_opts) (JObj Plain [(''other'', JNum 1)]) =
     Inr (JObj Plain [])"
  by code_simp

section \<open>The claims about failures\<close>

text \<open>
  C1, as amended. When the parser of at least one discovered file reports an error, the
  load aborts: the completion callback receives, with no result, the error reported for the
  failing file that called back first, no entry is applied and the state, with the store,
  is unchanged. When that parser is a built-in one and the file could be read, this error is
  a ParserError whose message is the text of the decoder's failure followed by the file.
\<close>

theorem first_failure_aborts_load:
  assumes "listDir e (absolute_dir e dir) (o_filePattern (defaults e opts)) = Some files"
    and "f \<in> set files"
    and "o_fileParser (defaults e opts) f (o_fileEncoding (defaults e opts)) = Inl err0"
  shows "\<exists>g err. g \<in> set files \<and>
           o_fileParser (defaults e opts) g (o_fileEncoding (defaults e opts)) = Inl err \<and>
           (\<forall>h\<in>set files. isl (o_fileParser (defaults e opts) h (o_fileEncoding (defaults e opts))) \<longrightarrow>
              finished e g \<le> finished e h) \<and>
           load e dir opts s = (Callback (Some err) None, s) \<and>
           (\<forall>data. readFile e g (o_fileEncoding (defaults e opts)) = Inr data \<longrightarrow>
              (o_fileParser (defaults e opts) = parseYAML e \<longrightarrow>
                 (\<exists>cause. yaml_load e data = Inl cause \<and> err = new_ParserError cause g)) \<and>
              (o_fileParser (defaults e opts) = parseJSON e \<longrightarrow>
                 (\<exists>cause. JSON_parse e data = Inl cause \<and> err = new_ParserError cause g)))"
proof -
  from load_parser_failure [OF assms, of s] obtain g err where
    g: "g \<in> set files"
    and pg: "o_fileParser (defaults e opts) g (o_fileEncoding (defaults e opts)) = Inl err"
    and least: "\<forall>h\<in>set files.
        isl (o_fileParser (defaults e opts) h (o_fileEncoding (defaults e opts))) \<longrightarrow>
        finished e g \<le> finished e h"
    and ld: "load e dir opts s = (Callback (Some err) None, s)"
    by blast
  have "\<forall>data. readFile e g (o_fileEncoding (defaults e opts)) = Inr data \<longrightarrow>
          (o_fileParser (defaults e opts) = parseYAML e \<longrightarrow>
             (\<exists>cause. yaml_load e data = Inl cause \<and> err = new_ParserError cause g)) \<and>
          (o_fileParser (defaults e opts) = parseJSON e \<longrightarrow>
             (\<exists>cause. JSON_parse e data = Inl cause \<and> err = new_ParserError cause g))"
    using pg builtin_yaml_failure [of e g "o_fileEncoding (defaults e opts)" err]
      builtin_json_failure [of e g "o_fileEncoding (defaults e opts)" err]
    by auto
  with g pg least ld show ?thesis by blast
qed

theorem first_failure_aborts_load_witness:
  "listDir sample_env (absolute_dir sample_env ''/app/broken'')
     (o_filePattern (defaults sample_env no_opts)) =
     Some [''/app/broken/ok.yaml'', ''/app/broken/bad.yaml''] \<and>
   load sample_env ''/app/broken'' no_opts loaded =
     (Callback
        (Some (new_ParserError (SyntaxError ''unexpected end of the stream'')
                 ''/app/broken/bad.yaml''))
        None, loaded)"
proof -
  have m: "''/app/broken/bad.yaml'' \<in> set [''/app/broken/ok.yaml'', ''/app/broken/bad.yaml'']"
    by simp
  from first_failure_aborts_load [OF listing_broken m parse_bad, of loaded] obtain g err where
    g: "g \<in> set [''/app/broken/ok.yaml'', ''/app/broken/bad.yaml'']"
    and pg: "o_fileParser (defaults sample_env no_opts) g
               (o_fileEncoding (defaults sample_env no_opts)) = Inl err"
    and ld: "load sample_env ''/app/broken'' no_opts loaded = (Callback (Some err) None, loaded)"
    by blast
  have "err = new_ParserError (SyntaxError ''unexpected end of the stream'') ''/app/broken/bad.yaml''"
    using g pg parse_ok parse_bad by auto
  with ld listing_broken show ?thesis by simp
qed

text \<open>
  C1 as it is stated fails. In a directory with an unreadable file and a file that does
  not decode, the read failure arrives first and the callback receives it as it is, not
  a ParserError; and a parser supplied by the caller hands its own error through.
\<close>

theorem parser_error_counterexample:
  "listDir sample_env (absolute_dir sample_env ''/app/mixed'')
     (o_filePattern (defaults sample_env no_opts)) =
     Some [''/app/mixed/locked.yaml'', ''/app/mixed/bad.yaml''] \<and>
   parseYAML sample_env ''/app/mixed/bad.yaml'' ''utf8'' =
     Inl (new_ParserError (SyntaxError ''unexpected end of the stream'') ''/app/mixed/bad.yaml'') \<and>
   load sample_env ''/app/mixed'' no_opts loaded =
     (Callback (Some (FsError ''EACCES: permission denied'')) None, loaded) \<and>
   \<not> (\<exists>m. fst (load sample_env ''/app/mixed'' no_opts loaded) = Callback (Some (ParserError m)) None) \<and>
   load sample_env ''/app/broken'' failing_opts loaded =
     (Callback (Some (CustomError ''no parse'')) None, loaded)"
  by (simp add: listing_mixed parse_mixed_bad load_aborted [OF entries_mixed]
      load_aborted [OF entries_failing])

text \<open>
  C5 fails on a file whose parsed value is falsy, such as an empty YAML file, for which
  the decoder returns \<open>undefined\<close>: the file's entry is that value itself, reading its
  profile sections throws a TypeError in the resolving stage, and the load ends with that
  exception instead of an entry holding the empty object.
\<close>

theorem empty_file_breaks_resolution:
  "loadFile (defaults sample_env no_opts) ''/app/blank'' ''/app/blank/empty.yaml'' =
     Inr (Bare JUndefined) \<and>
   resolve_configs (defaults sample_env no_opts) [Bare JUndefined] =
     Inl (TypeError ''Cannot read property of undefined'') \<and>
   load sample_env ''/app/blank'' no_opts loaded =
     (Raised (TypeError ''Cannot read property of undefined''), loaded)"
  by (intro conjI loadFile_blank resolve_blank load_aborted [OF entries_blank])

text \<open>
  C6, as amended. Whenever file discovery yields a list of files: an error reported by the
  parser of any file is delivered to the completion callback as its error, with no result,
  and the state is unchanged; when every file parses to a truthy value, the callback is
  called with a null error and a tree; and whenever the callback is called, it has either an
  error and no result, with the state unchanged, or a null error and a result.
\<close>

theorem failures_reach_the_callback:
  assumes "listDir e (absolute_dir e dir) (o_filePattern (defaults e opts)) = Some files"
  shows "((\<exists>f\<in>set files. isl (o_fileParser (defaults e opts) f (o_fileEncoding (defaults e opts)))) \<longrightarrow>
            (\<exists>err. load e dir opts s = (Callback (Some err) None, s))) \<and>
         ((\<forall>f\<in>set files. \<exists>v. o_fileParser (defaults e opts) f (o_fileEncoding (defaults e opts)) = Inr v \<and>
              truthy v) \<longrightarrow>
            (\<exists>r. fst (load e dir opts s) = Callback None (Some r))) \<and>
         (\<forall>err res. fst (load e dir opts s) = Callback err res \<longrightarrow>
            (\<exists>x. err = Some x \<and> res = None \<and> snd (load e dir opts s) = s) \<or>
            (err = None \<and> (\<exists>r. res = Some r)))"
proof (intro conjI impI allI)
  assume "\<exists>f\<in>set files. isl (o_fileParser (defaults e opts) f (o_fileEncoding (defaults e opts)))"
  then obtain f err0 where "f \<in> set files"
    "o_fileParser (defaults e opts) f (o_fileEncoding (defaults e opts)) = Inl err0"
    by (metis isl_def)
  from load_parser_failure [OF assms this, of s]
  show "\<exists>err. load e dir opts s = (Callback (Some err) None, s)"
    by blast
next
  assume "\<forall>f\<in>set files. \<exists>v. o_fileParser (defaults e opts) f (o_fileEncoding (defaults e opts)) = Inr v \<and>
              truthy v"
  from load_all_truthy [OF assms this] obtain solved where
    "resolved_entries e dir opts = Inr solved"
    by blast
  with updateStore_calls_back [of "defaults e opts" solved s]
  show "\<exists>r. fst (load e dir opts s) = Callback None (Some r)"
    by (simp add: load_def)
next
  fix err res
  assume "fst (load e dir opts s) = Callback err res"
  then show "(\<exists>x. err = Some x \<and> res = None \<and> snd (load e dir opts s) = s) \<or>
             (err = None \<and> (\<exists>r. res = Some r))"
    by (rule load_callback_shape)
qed

theorem failures_reach_the_callback_witness:
  "listDir sample_env (absolute_dir sample_env ''/app/broken'')
     (o_filePattern (defaults sample_env no_opts)) =
     Some [''/app/broken/ok.yaml'', ''/app/broken/bad.yaml''] \<and>
   (\<exists>err. load sample_env ''/app/broken'' no_opts loaded = (Callback (Some err) None, loaded)) \<and>
   listDir sample_env (absolute_dir sample_env ''/app/configs'')
     (o_filePattern (defaults sample_env no_opts)) =
     Some [''/app/configs/generic.yaml'', ''/app/configs/db/mongo.yaml''] \<and>
   (\<exists>r. fst (load sample_env ''/app/configs'' no_opts loaded) = Callback None (Some r))"
proof -
  have bad: "\<exists>f\<in>set [''/app/broken/ok.yaml'', ''/app/broken/bad.yaml''].
      isl (o_fileParser (defaults sample_env no_opts) f (o_fileEncoding (defaults sample_env no_opts)))"
    using parse_bad by simp
  have th: "truthy sample_tree" "truthy sample_host"
    by (simp_all add: sample_tree_def sample_host_def)
  have good: "\<forall>f\<in>set [''/app/configs/generic.yaml'', ''/app/configs/db/mongo.yaml''].
      \<exists>v. o_fileParser (defaults sample_env no_opts) f (o_fileEncoding (defaults sample_env no_opts)) = Inr v \<and>
          truthy v"
    using parse_generic parse_mongo th by simp
  show ?thesis
    using failures_reach_the_callback [OF listing_broken, of loaded] bad
      failures_reach_the_callback [OF listing_configs, of loaded] good
      listing_broken listing_configs
    by blast
qed

text \<open>
  C6 as it is stated fails for a failure of file discovery. The stage that lists the
  directory hands on only the files it is given, with a null error; when the finder fails,
  the completion callback is not called at all.
\<close>

theorem discovery_failure_counterexample:
  "listDir sample_env (absolute_dir sample_env ''/app/missing'')
     (o_filePattern (defaults sample_env no_opts)) = None \<and>
   load sample_env ''/app/missing'' no_opts loaded = (NotCalled, loaded) \<and>
   \<not> (\<exists>err res. fst (load sample_env ''/app/missing'' no_opts loaded) = Callback err res)"
  by (simp add: listing_missing load_aborted [OF entries_missing])

text \<open>
  C7 fails: a path normaliser given by the caller is never applied. With a normaliser that
  keeps every segment, the file \<open>path-with-dashes/conf1.yaml\<close> still gets the camel-cased
  path, where \<open>toDotPath\<close> with that normaliser would give the segments as they are.
\<close>

theorem custom_normalizer_is_ignored:
  "pathNormalizer keep_opts = Some (\<lambda>n. n) \<and>
   loadFile (defaults sample_env keep_opts) ''/app/names''
     ''/app/names/path-with-dashes/conf1.yaml'' =
     Inr (Config ''pathWithDashes.conf1'' sample_host) \<and>
   resolved_entries sample_env ''/app/names'' keep_opts =
     Inr [(''pathWithDashes.conf1'', JObj Plain [(''host'', JStr ''localhost'')])] \<and>
   toDotPath (path_relative ''/app/names'' ''/app/names/path-with-dashes/conf1.yaml'')
     (Some \<lparr>dp_pathNormalizer = Some (\<lambda>n. n)\<rparr>) = ''path-with-dashes.conf1''"
proof -
  have given: "pathNormalizer keep_opts = Some (\<lambda>n. n)"
    by (simp add: keep_opts_def)
  show ?thesis
    by (intro conjI given loadFile_names_keep entries_names_keep dotpath_names_keep)
qed

end
